theory Spec2Isabelle
  imports Complex_Main "HOL-Library.Multiset"
begin

section \<open>Python strings\<close>

text \<open>
  A Python \<^verbatim>\<open>str\<close> is a sequence of Unicode code points, so a string is a list of
  natural numbers (the code points); \<open>py\<close> turns an ASCII literal into such a string.
\<close>

type_synonym pystr = "nat list"

definition py :: "string \<Rightarrow> pystr" where
  "py s = map of_char s"

abbreviation (input) NEWLINE :: nat where "NEWLINE \<equiv> 10"
abbreviation (input) SPACE :: nat where "SPACE \<equiv> 32"
abbreviation (input) AMPERSAND :: nat where "AMPERSAND \<equiv> 38"
abbreviation (input) HYPHEN :: nat where "HYPHEN \<equiv> 45"
abbreviation (input) SLASH :: nat where "SLASH \<equiv> 47"
abbreviation (input) ZERO :: nat where "ZERO \<equiv> 48"
abbreviation (input) LBRACKET :: nat where "LBRACKET \<equiv> 91"
abbreviation (input) RBRACKET :: nat where "RBRACKET \<equiv> 93"
abbreviation (input) UNDERSCORE :: nat where "UNDERSCORE \<equiv> 95"

text \<open>
  \<^verbatim>\<open>str.isspace\<close> on one code point; the regular-expression class \<^verbatim>\<open>\s\<close> of a
  \<^verbatim>\<open>str\<close> pattern and \<^verbatim>\<open>str.strip()\<close> use the same set.
\<close>

definition isspace :: "nat \<Rightarrow> bool" where
  "isspace c \<longleftrightarrow>
     (9 \<le> c \<and> c \<le> 13) \<or> (28 \<le> c \<and> c \<le> 32) \<or> c = 133 \<or> c = 160 \<or> c = 5760 \<or>
     (8192 \<le> c \<and> c \<le> 8202) \<or> c = 8232 \<or> c = 8233 \<or> c = 8239 \<or> c = 8287 \<or> c = 12288"

definition ascii_alnum :: "nat \<Rightarrow> bool" where
  "ascii_alnum c \<longleftrightarrow> (48 \<le> c \<and> c \<le> 57) \<or> (65 \<le> c \<and> c \<le> 90) \<or> (97 \<le> c \<and> c \<le> 122)"

text \<open>
  \<^verbatim>\<open>str.isalnum\<close> on one code point. Beyond ASCII the answer comes from the interpreter's
  Unicode database, which is taken as the parameter \<open>uni\<close>.
\<close>

definition isalnum :: "(nat \<Rightarrow> bool) \<Rightarrow> nat \<Rightarrow> bool" where
  "isalnum uni c = (if c < 128 then ascii_alnum c else uni c)"

text \<open>\<^verbatim>\<open>s.strip()\<close>: leading and trailing whitespace removed.\<close>

definition strip :: "pystr \<Rightarrow> pystr" where
  "strip s = rev (dropWhile isspace (rev (dropWhile isspace s)))"

text \<open>\<^verbatim>\<open>sep.join(parts)\<close>.\<close>

fun join :: "pystr \<Rightarrow> pystr list \<Rightarrow> pystr" where
  "join sep [] = []"
| "join sep [x] = x"
| "join sep (x # y # ys) = x @ sep @ join sep (y # ys)"

text \<open>\<^verbatim>\<open>s.replace(a, b)\<close> for one-character \<open>a\<close> and \<open>b\<close>.\<close>

definition replace_char :: "nat \<Rightarrow> nat \<Rightarrow> pystr \<Rightarrow> pystr" where
  "replace_char a b s = map (\<lambda>c. if c = a then b else c) s"

text \<open>
  \<^verbatim>\<open>str(n)\<close> for a count, and the format \<^verbatim>\<open>{n:03d}\<close>: at least three characters, the
  sign included, padded with zeros after the sign.
\<close>

function str_nat :: "nat \<Rightarrow> pystr" where
  "str_nat n = (if n < 10 then [ZERO + n] else str_nat (n div 10) @ [ZERO + n mod 10])"
  by pat_completeness auto
termination
  by (relation "measure (\<lambda>n. n)") auto

declare str_nat.simps [simp del]

definition zfill :: "nat \<Rightarrow> pystr \<Rightarrow> pystr" where
  "zfill width s = replicate (width - length s) ZERO @ s"

definition fmt_03d :: "int \<Rightarrow> pystr" where
  "fmt_03d k = (if k < 0 then HYPHEN # zfill 2 (str_nat (nat (- k))) else zfill 3 (str_nat (nat k)))"

text \<open>\<^verbatim>\<open>os.path.join(a, b)\<close> with the POSIX separator.\<close>

definition path_join :: "pystr \<Rightarrow> pystr \<Rightarrow> pystr" where
  "path_join a b =
     (if b \<noteq> [] \<and> hd b = SLASH then b
      else if a = [] \<or> last a = SLASH then a @ b
      else a @ [SLASH] @ b)"

text \<open>
  \<^verbatim>\<open>re.sub(r'\[[^\]]+\]', '', s)\<close>. \<open>bracket_match\<close> is the match of the pattern at the
  head of the string: an opening bracket, the longest run of characters other than the
  closing bracket, which must not be empty, and a closing bracket; it returns what follows
  the match. The substitution scans from the left, drops every match and resumes
  after it; where the pattern does not match it keeps the character and moves on by one.
\<close>

fun bracket_match :: "pystr \<Rightarrow> pystr option" where
  "bracket_match [] = None"
| "bracket_match (c # cs) =
     (if c = LBRACKET then
        (let body = takeWhile (\<lambda>x. x \<noteq> RBRACKET) cs;
             rest = dropWhile (\<lambda>x. x \<noteq> RBRACKET) cs
         in if body \<noteq> [] \<and> rest \<noteq> [] then Some (tl rest) else None)
      else None)"

function re_sub_bracketed :: "pystr \<Rightarrow> pystr" where
  "re_sub_bracketed [] = []"
| "re_sub_bracketed (c # cs) =
     (case bracket_match (c # cs) of
        Some rest \<Rightarrow> re_sub_bracketed rest
      | None \<Rightarrow> c # re_sub_bracketed cs)"
  by pat_completeness auto
termination
proof (relation "measure length")
  fix c :: nat and cs rest :: pystr
  assume "bracket_match (c # cs) = Some rest"
  then have "rest = tl (dropWhile (\<lambda>x. x \<noteq> RBRACKET) cs)"
    by (auto simp: Let_def split: if_splits)
  moreover have "length (dropWhile (\<lambda>x. x \<noteq> RBRACKET) cs) \<le> length cs"
    by (rule length_dropWhile_le)
  ultimately show "(rest, c # cs) \<in> measure length" by simp
qed simp_all

text \<open>A bracketed marker occurs somewhere in the string: the pattern matches at some position.\<close>

fun has_marker :: "pystr \<Rightarrow> bool" where
  "has_marker [] = False"
| "has_marker (c # cs) = (bracket_match (c # cs) \<noteq> None \<or> has_marker cs)"

section \<open>Data model and environment\<close>

datatype exn = Exception pystr

fun str_exn :: "exn \<Rightarrow> pystr" where
  "str_exn (Exception msg) = msg"

record entry =
  "text" :: pystr
  start :: real
  duration :: real

type_synonym transcript = "entry list"

record video =
  vid :: pystr
  title :: pystr
  position :: int

text \<open>One item of a playlist page: the fields of \<^verbatim>\<open>item["snippet"]\<close> that the code reads.\<close>

record item =
  resource_videoId :: pystr
  snippet_title :: pystr
  snippet_position :: int

record page =
  items :: "item list"
  nextPageToken :: "pystr option"

text \<open>
  What a file holds: the JSON dump of a transcript, plain text, or what is left of either
  when the write raised after the file was opened.
\<close>

datatype content = Json transcript | Text pystr | Truncated

text \<open>
  Both files are written with the encoding UTF-8, which refuses the surrogate code points:
  a text that has one makes \<^verbatim>\<open>json.dump\<close> or \<^verbatim>\<open>f.write\<close> raise
  \<^verbatim>\<open>UnicodeEncodeError\<close>.
\<close>

definition is_surrogate :: "nat \<Rightarrow> bool" where
  "is_surrogate c \<longleftrightarrow> 55296 \<le> c \<and> c \<le> 57343"

definition utf8_ok :: "pystr \<Rightarrow> bool" where
  "utf8_ok s = list_all (\<lambda>c. \<not> is_surrogate c) s"

fun encodable :: "content \<Rightarrow> bool" where
  "encodable (Json t) = list_all (\<lambda>x. utf8_ok (text x)) t"
| "encodable (Text s) = utf8_ok s"
| "encodable Truncated = True"

text \<open>
  The collaborators outside the repository: the playlist listing service (developer key,
  playlist id, page token), the transcript service (video id, the \<^verbatim>\<open>languages\<close> argument
  or \<open>None\<close> where the call omits it), whether \<^verbatim>\<open>open(path, 'w')\<close> raises, whether
  the operating system fails a write to the opened file,
  \<^verbatim>\<open>os.path.abspath\<close>, the Unicode table behind \<^verbatim>\<open>\w\<close>, and the two values read from the
  process environment (assumed to be set). The services raise subclasses of
  \<^verbatim>\<open>Exception\<close> only.
\<close>

record env =
  playlist_api :: "pystr \<Rightarrow> pystr \<Rightarrow> pystr option \<Rightarrow> exn + page"
  transcript_api :: "pystr \<Rightarrow> pystr list option \<Rightarrow> exn + transcript"
  open_error :: "pystr \<Rightarrow> exn option"
  write_error :: "pystr \<Rightarrow> exn option"
  abspath :: "pystr \<Rightarrow> pystr"
  unicode_alnum :: "nat \<Rightarrow> bool"
  YOUTUBE_API_KEY :: pystr
  PLAYLIST_ID :: pystr

text \<open>
  What the program changes: the lines printed, the files written, the calls made to the
  transcript service (kept in order, to tell which attempts were made) and the seconds
  slept.
\<close>

record world =
  out :: "pystr list"
  files :: "pystr \<rightharpoonup> content"
  api_calls :: "(pystr \<times> pystr list option) list"
  slept :: nat

definition print :: "pystr \<Rightarrow> world \<Rightarrow> world" where
  "print line w = w\<lparr>out := out w @ [line]\<rparr>"

definition sleep :: "nat \<Rightarrow> world \<Rightarrow> world" where
  "sleep secs w = w\<lparr>slept := slept w + secs\<rparr>"

text \<open>Python truthiness of a value that is \<^verbatim>\<open>None\<close> or a sequence.\<close>

definition truthy :: "'a list option \<Rightarrow> bool" where
  "truthy x = (case x of None \<Rightarrow> False | Some xs \<Rightarrow> xs \<noteq> [])"

definition TRANSCRIPTS_DIR :: pystr where
  "TRANSCRIPTS_DIR = path_join (py ''backend'') (py ''transcripts'')"

definition RAW_DIR :: pystr where
  "RAW_DIR = path_join TRANSCRIPTS_DIR (py ''raw'')"

definition CLEAN_DIR :: pystr where
  "CLEAN_DIR = path_join TRANSCRIPTS_DIR (py ''clean'')"

section \<open>Playlist Lister\<close>

definition item_video :: "item \<Rightarrow> video" where
  "item_video it =
     \<lparr>vid = resource_videoId it, title = snippet_title it, position = snippet_position it + 1\<rparr>"

text \<open>
  The \<^verbatim>\<open>while True\<close> loop of \<^verbatim>\<open>get_playlist_videos\<close>. It ends when a page has no
  continuation token; a service that always returns one keeps it running, which is the
  value \<open>None\<close>. An error of the service is not caught.
\<close>

partial_function (option) collect_pages ::
  "env \<Rightarrow> pystr \<Rightarrow> pystr \<Rightarrow> pystr option \<Rightarrow> video list \<Rightarrow> (exn + video list) option" where
  "collect_pages e playlist_id api_key next_page_token videos =
     (case playlist_api e api_key playlist_id next_page_token of
        Inl err \<Rightarrow> Some (Inl err)
      | Inr playlist_response \<Rightarrow>
          (let videos' = videos @ map item_video (items playlist_response)
           in if \<not> truthy (nextPageToken playlist_response) then Some (Inr videos')
              else collect_pages e playlist_id api_key (nextPageToken playlist_response) videos'))"

definition get_playlist_videos ::
  "env \<Rightarrow> pystr \<Rightarrow> pystr \<Rightarrow> world \<Rightarrow> ((exn + video list) \<times> world) option" where
  "get_playlist_videos e playlist_id api_key w =
     (let playlist_id' =
            (if AMPERSAND \<in> set playlist_id
             then takeWhile (\<lambda>c. c \<noteq> AMPERSAND) playlist_id else playlist_id);
          w1 = print (py ''Using cleaned playlist ID: '' @ playlist_id') w
      in case collect_pages e playlist_id' api_key None [] of
           None \<Rightarrow> None
         | Some (Inl err) \<Rightarrow> Some (Inl err, w1)
         | Some (Inr videos) \<Rightarrow> Some (Inr (sort_key position videos), w1))"

text \<open>
  The listing service answers the request for token \<open>tok\<close> and the continuation requests
  that follow with exactly the pages \<open>ps\<close>, the last of which has no continuation token.
\<close>

fun serves :: "env \<Rightarrow> pystr \<Rightarrow> pystr \<Rightarrow> pystr option \<Rightarrow> page list \<Rightarrow> bool" where
  "serves e playlist_id api_key tok [] = False"
| "serves e playlist_id api_key tok [p] =
     (playlist_api e api_key playlist_id tok = Inr p \<and> \<not> truthy (nextPageToken p))"
| "serves e playlist_id api_key tok (p # q # ps) =
     (playlist_api e api_key playlist_id tok = Inr p \<and> truthy (nextPageToken p) \<and>
      serves e playlist_id api_key (nextPageToken p) (q # ps))"

section \<open>Transcript Fetcher\<close>

definition call_transcript_api ::
  "env \<Rightarrow> pystr \<Rightarrow> pystr list option \<Rightarrow> world \<Rightarrow> (exn + transcript) \<times> world" where
  "call_transcript_api e video_id languages w =
     (transcript_api e video_id languages,
      w\<lparr>api_calls := api_calls w @ [(video_id, languages)]\<rparr>)"

definition get_transcript :: "env \<Rightarrow> pystr \<Rightarrow> world \<Rightarrow> (exn + transcript option) \<times> world" where
  "get_transcript e video_id w =
     (case call_transcript_api e video_id (Some [py ''hi'']) w of
        (Inr transcript, w1) \<Rightarrow> (Inr (Some transcript), w1)
      | (Inl e1, w1) \<Rightarrow>
          (case call_transcript_api e video_id (Some [py ''hi-IN'']) w1 of
             (Inr transcript, w2) \<Rightarrow> (Inr (Some transcript), w2)
           | (Inl e2, w2) \<Rightarrow>
               (case call_transcript_api e video_id None w2 of
                  (Inr transcript, w3) \<Rightarrow> (Inr (Some transcript), w3)
                | (Inl e3, w3) \<Rightarrow>
                    (Inr None,
                     print (py ''Could not get transcript for video '' @ video_id @ py '': ''
                            @ str_exn e3) w3))))"

section \<open>Transcript Cleaner\<close>

definition clean_transcript :: "transcript option \<Rightarrow> pystr" where
  "clean_transcript transcript =
     (case transcript of
        None \<Rightarrow> []
      | Some t \<Rightarrow>
          if t = [] then []
          else
            (let text_parts = map text t;
                 formatted_transcript = join [NEWLINE] text_parts;
                 clean_text = strip formatted_transcript
             in re_sub_bracketed clean_text))"

section \<open>Persistence Writer\<close>

text \<open>\<^verbatim>\<open>re.sub(r'[^\w\s-]', '', title).strip().replace(' ', '_')\<close>\<close>

definition safe_title :: "env \<Rightarrow> pystr \<Rightarrow> pystr" where
  "safe_title e t =
     replace_char SPACE UNDERSCORE
       (strip (filter (\<lambda>c. isalnum (unicode_alnum e) c \<or> c = UNDERSCORE \<or> isspace c \<or> c = HYPHEN) t))"

definition base_filename :: "env \<Rightarrow> video \<Rightarrow> pystr" where
  "base_filename e video_info =
     fmt_03d (position video_info) @ py ''_'' @ safe_title e (title video_info) @ py ''_''
     @ vid video_info"

definition raw_path :: "env \<Rightarrow> video \<Rightarrow> pystr \<Rightarrow> pystr" where
  "raw_path e video_info raw_dir = path_join raw_dir (base_filename e video_info @ py ''.json'')"

definition clean_path :: "env \<Rightarrow> video \<Rightarrow> pystr \<Rightarrow> pystr" where
  "clean_path e video_info clean_dir = path_join clean_dir (base_filename e video_info @ py ''.txt'')"

text \<open>
  \<^verbatim>\<open>with open(path, 'w', encoding='utf-8') as f: ...\<close> writing \<open>c\<close>. A failing open
  raises and leaves the files as they were. Once the file is open it exists; a write that
  raises, because the content cannot be encoded or because the operating system fails
  it, leaves the file cut short.
\<close>

definition write_file :: "env \<Rightarrow> pystr \<Rightarrow> content \<Rightarrow> world \<Rightarrow> (exn + unit) \<times> world" where
  "write_file e path c w =
     (case open_error e path of
        Some err \<Rightarrow> (Inl err, w)
      | None \<Rightarrow>
          if \<not> encodable c
          then (Inl (Exception (py ''UnicodeEncodeError'')),
                w\<lparr>files := (files w)(path \<mapsto> Truncated)\<rparr>)
          else
            (case write_error e path of
               Some err \<Rightarrow> (Inl err, w\<lparr>files := (files w)(path \<mapsto> Truncated)\<rparr>)
             | None \<Rightarrow> (Inr (), w\<lparr>files := (files w)(path \<mapsto> c)\<rparr>)))"

definition save_transcript ::
  "env \<Rightarrow> video \<Rightarrow> transcript option \<Rightarrow> pystr \<Rightarrow> pystr \<Rightarrow> world \<Rightarrow> (exn + bool) \<times> world" where
  "save_transcript e video_info transcript raw_dir clean_dir w =
     (case transcript of
        None \<Rightarrow> (Inr False, w)
      | Some t \<Rightarrow>
          if t = [] then (Inr False, w)
          else
            (case write_file e (raw_path e video_info raw_dir) (Json t) w of
               (Inl err, w1) \<Rightarrow> (Inl err, w1)
             | (Inr u, w1) \<Rightarrow>
                 (let clean_text = clean_transcript transcript
                  in case write_file e (clean_path e video_info clean_dir) (Text clean_text) w1 of
                       (Inl err, w2) \<Rightarrow> (Inl err, w2)
                     | (Inr u', w2) \<Rightarrow> (Inr True, w2))))"

section \<open>Run Orchestrator\<close>

record tally =
  successful :: nat
  failed :: nat

text \<open>The body of the \<^verbatim>\<open>try\<close> block of one iteration.\<close>

definition try_video :: "env \<Rightarrow> video \<Rightarrow> tally \<Rightarrow> world \<Rightarrow> (exn + tally) \<times> world" where
  "try_video e video t w =
     (case get_transcript e (vid video) w of
        (Inl err, w1) \<Rightarrow> (Inl err, w1)
      | (Inr transcript, w1) \<Rightarrow>
          if truthy transcript then
            (case save_transcript e video transcript RAW_DIR CLEAN_DIR w1 of
               (Inl err, w2) \<Rightarrow> (Inl err, w2)
             | (Inr success, w2) \<Rightarrow>
                 if success
                 then (Inr (t\<lparr>successful := successful t + 1\<rparr>),
                       print (10003 # py '' Saved transcript'') w2)
                 else (Inr (t\<lparr>failed := failed t + 1\<rparr>),
                       print (10007 # py '' Failed to save transcript'') w2))
          else (Inr (t\<lparr>failed := failed t + 1\<rparr>),
                print (10007 # py '' No transcript available'') w1))"

text \<open>One iteration of the \<^verbatim>\<open>for\<close> loop: the progress line, the guarded body, the pause.\<close>

definition loop_body :: "env \<Rightarrow> nat \<Rightarrow> nat \<Rightarrow> video \<Rightarrow> tally \<Rightarrow> world \<Rightarrow> tally \<times> world" where
  "loop_body e n i video t w =
     (let w0 = print (py ''Processing '' @ str_nat (i + 1) @ py ''/'' @ str_nat n @ py '': ''
                      @ title video @ py '' (ID: '' @ vid video @ py '')'') w
      in case try_video e video t w0 of
           (Inr t', w1) \<Rightarrow> (t', sleep 1 w1)
         | (Inl err, w1) \<Rightarrow>
             (t\<lparr>failed := failed t + 1\<rparr>,
              sleep 1 (print (10007 # py '' Error processing video: '' @ str_exn err) w1)))"

fun for_videos :: "env \<Rightarrow> nat \<Rightarrow> nat \<Rightarrow> video list \<Rightarrow> tally \<Rightarrow> world \<Rightarrow> tally \<times> world" where
  "for_videos e n i [] t w = (t, w)"
| "for_videos e n i (video # rest) t w =
     (case loop_body e n i video t w of (t', w') \<Rightarrow> for_videos e n (Suc i) rest t' w')"

text \<open>
  \<^verbatim>\<open>main\<close>. The Python function returns nothing; the model returns the two counters it
  prints, or the error of the listing, which it does not catch.
\<close>

definition main :: "env \<Rightarrow> world \<Rightarrow> ((exn + tally) \<times> world) option" where
  "main e w =
     (let w0 = print (py ''Fetching videos from playlist: '' @ PLAYLIST_ID e) w
      in case get_playlist_videos e (PLAYLIST_ID e) (YOUTUBE_API_KEY e) w0 of
           None \<Rightarrow> None
         | Some (Inl err, w1) \<Rightarrow> Some (Inl err, w1)
         | Some (Inr videos, w1) \<Rightarrow>
             (let w2 = print (py ''Found '' @ str_nat (length videos) @ py '' videos in the playlist'') w1
              in case for_videos e (length videos) 0 videos \<lparr>successful = 0, failed = 0\<rparr> w2 of
                   (t, w3) \<Rightarrow>
                     Some (Inr t,
                       print (py ''- Clean transcripts: '' @ abspath e CLEAN_DIR)
                        (print (py ''- Raw transcripts: '' @ abspath e RAW_DIR)
                         (print (NEWLINE # py ''Transcripts saved to:'')
                          (print (py ''- Total videos processed: '' @ str_nat (successful t + failed t))
                           (print (py ''- Failed to save transcripts: '' @ str_nat (failed t))
                            (print (py ''- Successfully saved transcripts: '' @ str_nat (successful t))
                             (print (NEWLINE # py ''Summary:'') w3)))))))))"

section \<open>The file name as the specification words it\<close>

text \<open>
  The sanitised title in the words of the specification: alphanumerics, spaces and
  hyphens are kept, everything else is stripped, then the spaces inside are replaced by
  underscores. Spaces at either end, about which the wording says nothing, are dropped.
\<close>

definition strip_spaces :: "pystr \<Rightarrow> pystr" where
  "strip_spaces s = rev (dropWhile (\<lambda>c. c = SPACE) (rev (dropWhile (\<lambda>c. c = SPACE) s)))"

definition spec_safe_title :: "env \<Rightarrow> pystr \<Rightarrow> pystr" where
  "spec_safe_title e t =
     replace_char SPACE UNDERSCORE
       (strip_spaces (filter (\<lambda>c. isalnum (unicode_alnum e) c \<or> c = SPACE \<or> c = HYPHEN) t))"

definition spec_base_filename :: "env \<Rightarrow> video \<Rightarrow> pystr" where
  "spec_base_filename e video_info =
     fmt_03d (position video_info) @ py ''_'' @ spec_safe_title e (title video_info) @ py ''_''
     @ vid video_info"

section \<open>The cleaning as the specification words it\<close>








section \<open>The transcript library\<close>

text \<open>
  The transcript library is not part of the repository. Its entry point is declared as
  \<^verbatim>\<open>get_transcript(video_id, languages=('en',))\<close>: of the transcripts a video has, each
  under its language code, it returns the one for the first code of \<^verbatim>\<open>languages\<close> that the
  video has, and raises when the video has none of them. A call that leaves
  \<^verbatim>\<open>languages\<close> out asks for English.
\<close>

fun first_available :: "(pystr \<times> transcript) list \<Rightarrow> pystr list \<Rightarrow> transcript option" where
  "first_available available [] = None"
| "first_available available (code # codes) =
     (case map_of available code of
        Some t \<Rightarrow> Some t
      | None \<Rightarrow> first_available available codes)"

definition library_get_transcript ::
  "(pystr \<Rightarrow> (pystr \<times> transcript) list) \<Rightarrow> pystr \<Rightarrow> pystr list option \<Rightarrow> exn + transcript" where
  "library_get_transcript catalogue video_id languages =
     (case first_available (catalogue video_id)
             (case languages of None \<Rightarrow> [py ''en''] | Some codes \<Rightarrow> codes) of
        Some t \<Rightarrow> Inr t
      | None \<Rightarrow> Inl (Exception (py ''NoTranscriptFound'')))"

section \<open>What one iteration observes\<close>

text \<open>
  The result of the fetch for a video, and the result of the write for what was fetched
  (an error of the fetch counts as an error of the step). Neither depends on the world
  they start from. For an empty transcript \<open>main\<close> skips the call of the Writer, whose
  result on it is \<open>False\<close> and which changes nothing.
\<close>

definition fetched :: "env \<Rightarrow> video \<Rightarrow> world \<Rightarrow> exn + transcript option" where
  "fetched e video w = fst (get_transcript e (vid video) w)"

definition written :: "env \<Rightarrow> video \<Rightarrow> world \<Rightarrow> exn + bool" where
  "written e video w =
     (case fetched e video w of
        Inl err \<Rightarrow> Inl err
      | Inr transcript \<Rightarrow> fst (save_transcript e video transcript RAW_DIR CLEAN_DIR w))"

section \<open>Example environments\<close>

definition hello_music_world :: transcript where
  "hello_music_world =
     [\<lparr>text = py ''Hello'', start = 0, duration = 2\<rparr>,
      \<lparr>text = py ''[Music]'', start = 2, duration = 3\<rparr>,
      \<lparr>text = py ''world'', start = 5, duration = 1\<rparr>]"

definition music_only :: transcript where
  "music_only = [\<lparr>text = py ''[Music]'', start = 0, duration = 4\<rparr>]"

text \<open>
  A playlist of three videos served in two pages. The first video has a transcript in
  the first language, the second has none, the third has one only when no language is
  asked for. Of two more videos, not in the playlist, one has a transcript in the second
  language and the other an empty one. Every file can be opened.
\<close>

definition demo_playlist_api :: "pystr \<Rightarrow> pystr \<Rightarrow> pystr option \<Rightarrow> exn + page" where
  "demo_playlist_api key playlist_id tok =
     (if playlist_id \<noteq> py ''PL1'' then Inl (Exception (py ''playlistNotFound''))
      else if tok = None then
        Inr \<lparr>items =
               [\<lparr>resource_videoId = py ''vidA'', snippet_title = py ''Intro: Part 1!'',
                 snippet_position = 0\<rparr>,
                \<lparr>resource_videoId = py ''vidB'', snippet_title = py ''Lesson 2'',
                 snippet_position = 1\<rparr>],
             nextPageToken = Some (py ''t2'')\<rparr>
      else if tok = Some (py ''t2'') then
        Inr \<lparr>items =
               [\<lparr>resource_videoId = py ''vidC'', snippet_title = py ''a_b'',
                 snippet_position = 2\<rparr>],
             nextPageToken = None\<rparr>
      else Inl (Exception (py ''invalidPageToken'')))"

definition demo_transcript_api :: "pystr \<Rightarrow> pystr list option \<Rightarrow> exn + transcript" where
  "demo_transcript_api video_id languages =
     (if video_id = py ''vidA'' \<and> languages = Some [py ''hi''] then Inr hello_music_world
      else if video_id = py ''vidD'' \<and> languages = Some [py ''hi-IN''] then Inr hello_music_world
      else if video_id = py ''vidC'' \<and> languages = None then Inr music_only
      else if video_id = py ''vidE'' \<and> languages = Some [py ''hi''] then Inr []
      else Inl (Exception (py ''NoTranscriptFound'')))"

definition demo_env :: env where
  "demo_env =
     \<lparr>playlist_api = demo_playlist_api,
      transcript_api = demo_transcript_api,
      open_error = (\<lambda>path. None),
      write_error = (\<lambda>path. None),
      abspath = (\<lambda>path. py ''/srv/'' @ path),
      unicode_alnum = (\<lambda>c. 2308 \<le> c \<and> c \<le> 2361),
      YOUTUBE_API_KEY = py ''KEY'',
      PLAYLIST_ID = py ''PL1&index=2''\<rparr>"

text \<open>The same, with a listing that leaves out the item at source position 1.\<close>

definition gap_playlist_api :: "pystr \<Rightarrow> pystr \<Rightarrow> pystr option \<Rightarrow> exn + page" where
  "gap_playlist_api key playlist_id tok =
     Inr \<lparr>items =
            [\<lparr>resource_videoId = py ''vidA'', snippet_title = py ''Intro: Part 1!'',
              snippet_position = 0\<rparr>,
             \<lparr>resource_videoId = py ''vidC'', snippet_title = py ''a_b'',
              snippet_position = 2\<rparr>],
          nextPageToken = None\<rparr>"

definition gap_env :: env where
  "gap_env = demo_env\<lparr>playlist_api := gap_playlist_api\<rparr>"

text \<open>The same, on a file system that refuses every open.\<close>

definition readonly_env :: env where
  "readonly_env = demo_env\<lparr>open_error := (\<lambda>path. Some (Exception (py ''PermissionError'')))\<rparr>"

text \<open>The same, on a file system that refuses to open the clean artifact of the first video.\<close>

definition clean_locked_env :: env where
  "clean_locked_env =
     demo_env\<lparr>open_error :=
       (\<lambda>path. if path = py ''backend/transcripts/clean/001_Intro_Part_1_vidA.txt''
               then Some (Exception (py ''PermissionError'')) else None)\<rparr>"

text \<open>
  The transcript service as the library over a catalogue in which one video has a
  Spanish transcript and nothing else.
\<close>

definition spanish_catalogue :: "pystr \<Rightarrow> (pystr \<times> transcript) list" where
  "spanish_catalogue video_id =
     (if video_id = py ''vidS'' then [(py ''es'', hello_music_world)] else [])"

definition spanish_env :: env where
  "spanish_env = demo_env\<lparr>transcript_api := library_get_transcript spanish_catalogue\<rparr>"

text \<open>A transcript whose one entry holds a lone surrogate.\<close>

definition surrogate_only :: transcript where
  "surrogate_only = [\<lparr>text = [55296], start = 0, duration = 1\<rparr>]"

definition world0 :: world where
  "world0 = \<lparr>out = [], files = Map.empty, api_calls = [], slept = 0\<rparr>"

definition video_a :: video where
  "video_a = \<lparr>vid = py ''vidA'', title = py ''Intro: Part 1!'', position = 1\<rparr>"

definition video_b :: video where
  "video_b = \<lparr>vid = py ''vidB'', title = py ''Lesson 2'', position = 2\<rparr>"

definition video_c :: video where
  "video_c = \<lparr>vid = py ''vidC'', title = py ''a_b'', position = 3\<rparr>"

definition video_e :: video where
  "video_e = \<lparr>vid = py ''vidE'', title = py ''Silence'', position = 5\<rparr>"

section \<open>Facts about the string operations\<close>

lemma bracket_match_set: "bracket_match s = Some rest \<Longrightarrow> set rest \<subseteq> set s"
proof (cases s)
  case Nil
  assume "bracket_match s = Some rest"
  with Nil show ?thesis by simp
next
  case (Cons c cs)
  assume "bracket_match s = Some rest"
  with Cons have r: "rest = tl (dropWhile (\<lambda>x. x \<noteq> RBRACKET) cs)"
    and ne: "dropWhile (\<lambda>x. x \<noteq> RBRACKET) cs \<noteq> []"
    by (auto simp: Let_def split: if_splits)
  have "set (tl (dropWhile (\<lambda>x. x \<noteq> RBRACKET) cs)) \<subseteq> set (dropWhile (\<lambda>x. x \<noteq> RBRACKET) cs)"
    using ne by (metis list.set_sel(2) subsetI)
  also have "\<dots> \<subseteq> set cs"
    by (auto dest: set_dropWhileD)
  finally show ?thesis using r Cons by auto
qed

lemma set_re_sub_bracketed: "set (re_sub_bracketed s) \<subseteq> set s"
proof (induction s rule: re_sub_bracketed.induct)
  case 1
  show ?case by simp
next
  case (2 c cs)
  show ?case
  proof (cases "bracket_match (c # cs)")
    case None
    with 2 show ?thesis by auto
  next
    case (Some rest)
    with 2 bracket_match_set[OF Some] show ?thesis by auto
  qed
qed



lemma re_sub_bracketed_no_marker: "\<not> has_marker s \<Longrightarrow> re_sub_bracketed s = s"
  by (induction s) auto

lemma strip_id:
  assumes "s = [] \<or> (\<not> isspace (hd s) \<and> \<not> isspace (last s))"
  shows "strip s = s"
proof (cases s)
  case Nil
  then show ?thesis by (simp add: strip_def)
next
  case (Cons c cs)
  with assms have h: "\<not> isspace (hd s)" and l: "\<not> isspace (last s)" by auto
  from Cons h have "dropWhile isspace s = s" by simp
  moreover have "dropWhile isspace (rev s) = rev s"
  proof -
    from Cons obtain a as where r: "rev s = a # as" by (cases "rev s") auto
    from Cons have "hd (rev s) = last s" by (simp add: hd_rev)
    with r l have "\<not> isspace a" by simp
    with r show ?thesis by simp
  qed
  ultimately show ?thesis by (simp add: strip_def)
qed

lemma re_sub_bracketed_prefix:
  "LBRACKET \<notin> set a \<Longrightarrow> re_sub_bracketed (a @ s) = a @ re_sub_bracketed s"
  by (induction a) auto

lemma bracket_match_marker:
  "m \<noteq> [] \<Longrightarrow> RBRACKET \<notin> set m \<Longrightarrow> bracket_match (LBRACKET # m @ RBRACKET # s) = Some s"
proof -
  assume m: "m \<noteq> []" and n: "RBRACKET \<notin> set m"
  from n have a: "\<And>x. x \<in> set m \<Longrightarrow> x \<noteq> RBRACKET" by auto
  have t: "takeWhile (\<lambda>x. x \<noteq> RBRACKET) (m @ RBRACKET # s) = m"
    using a by simp
  have d: "dropWhile (\<lambda>x. x \<noteq> RBRACKET) (m @ RBRACKET # s) = RBRACKET # s"
    using a by simp
  show ?thesis using m by (simp add: Let_def t d)
qed

lemma re_sub_bracketed_marker:
  "m \<noteq> [] \<Longrightarrow> RBRACKET \<notin> set m \<Longrightarrow>
   re_sub_bracketed (LBRACKET # m @ RBRACKET # s) = re_sub_bracketed s"
  by (simp add: bracket_match_marker del: bracket_match.simps)

lemma join_Cons: "rest \<noteq> [] \<Longrightarrow> join sep (x # rest) = x @ sep @ join sep rest"
  by (cases rest) simp_all

lemma join_snoc: "pre \<noteq> [] \<Longrightarrow> join sep (pre @ [x]) = join sep pre @ sep @ x"
  by (induction sep pre rule: join.induct) simp_all

lemma dropWhile_isspace_append:
  "\<exists>c\<in>set a. \<not> isspace c \<Longrightarrow> dropWhile isspace (a @ b) = dropWhile isspace a @ b"
  by (auto simp: dropWhile_append1)

lemma strip_marker_first:
  assumes "\<exists>c\<in>set j. \<not> isspace c"
  shows "\<exists>j'. strip (LBRACKET # m @ RBRACKET # NEWLINE # j) = LBRACKET # m @ RBRACKET # NEWLINE # j'"
proof -
  from assms have "\<exists>c\<in>set (rev j). \<not> isspace c" by simp
  then have "dropWhile isspace (rev j @ NEWLINE # RBRACKET # rev m @ [LBRACKET])
             = dropWhile isspace (rev j) @ NEWLINE # RBRACKET # rev m @ [LBRACKET]"
    by (rule dropWhile_isspace_append)
  moreover have "\<not> isspace LBRACKET" by (simp add: isspace_def)
  ultimately show ?thesis by (simp add: strip_def)
qed

lemma strip_marker_last:
  assumes "\<exists>c\<in>set j. \<not> isspace c"
  shows "strip (j @ NEWLINE # LBRACKET # m @ [RBRACKET])
         = dropWhile isspace j @ NEWLINE # LBRACKET # m @ [RBRACKET]"
proof -
  have "dropWhile isspace (j @ NEWLINE # LBRACKET # m @ [RBRACKET])
        = dropWhile isspace j @ NEWLINE # LBRACKET # m @ [RBRACKET]"
    using assms by (rule dropWhile_isspace_append)
  moreover have "\<not> isspace RBRACKET" by (simp add: isspace_def)
  ultimately show ?thesis by (simp add: strip_def)
qed

lemma clean_marker_only:
  assumes "m \<noteq> []" "RBRACKET \<notin> set m" "text x = LBRACKET # m @ [RBRACKET]"
  shows "clean_transcript (Some [x]) = []"
proof -
  have "\<not> isspace LBRACKET" "\<not> isspace RBRACKET" by (simp_all add: isspace_def)
  then have "strip (LBRACKET # m @ [RBRACKET]) = LBRACKET # m @ [RBRACKET]"
    by (intro strip_id) simp
  moreover have "re_sub_bracketed (LBRACKET # m @ RBRACKET # []) = re_sub_bracketed []"
    using assms(1,2) by (rule re_sub_bracketed_marker)
  ultimately show ?thesis using assms(3) by (simp add: clean_transcript_def)
qed

lemma clean_marker_first:
  assumes "m \<noteq> []" "RBRACKET \<notin> set m" "text x = LBRACKET # m @ [RBRACKET]"
    and "rest \<noteq> []" "\<exists>c\<in>set (join [NEWLINE] (map text rest)). \<not> isspace c"
  shows "\<exists>s. clean_transcript (Some (x # rest)) = NEWLINE # s"
proof -
  let ?j = "join [NEWLINE] (map text rest)"
  have "join [NEWLINE] (map text (x # rest)) = LBRACKET # m @ RBRACKET # NEWLINE # ?j"
    using assms(3,4) by (simp add: join_Cons)
  moreover obtain j' where
    "strip (LBRACKET # m @ RBRACKET # NEWLINE # ?j) = LBRACKET # m @ RBRACKET # NEWLINE # j'"
    using strip_marker_first[OF assms(5)] by blast
  moreover have "re_sub_bracketed (LBRACKET # m @ RBRACKET # NEWLINE # j')
                 = re_sub_bracketed (NEWLINE # j')"
    using assms(1,2) by (rule re_sub_bracketed_marker)
  ultimately have "clean_transcript (Some (x # rest)) = NEWLINE # re_sub_bracketed j'"
    by (simp add: clean_transcript_def)
  then show ?thesis ..
qed

lemma clean_marker_last:
  assumes "m \<noteq> []" "RBRACKET \<notin> set m" "text x = LBRACKET # m @ [RBRACKET]"
    and "pre \<noteq> []" "\<exists>c\<in>set (join [NEWLINE] (map text pre)). \<not> isspace c"
    and "LBRACKET \<notin> set (join [NEWLINE] (map text pre))"
  shows "\<exists>s. clean_transcript (Some (pre @ [x])) = s @ [NEWLINE]"
proof -
  let ?j = "join [NEWLINE] (map text pre)"
  have "join [NEWLINE] (map text (pre @ [x])) = ?j @ NEWLINE # LBRACKET # m @ [RBRACKET]"
    using assms(3,4) by (simp add: join_snoc)
  moreover have "strip (?j @ NEWLINE # LBRACKET # m @ [RBRACKET])
                 = dropWhile isspace ?j @ NEWLINE # LBRACKET # m @ [RBRACKET]"
    using assms(5) by (rule strip_marker_last)
  moreover have "LBRACKET \<notin> set (dropWhile isspace ?j @ [NEWLINE])"
    using assms(6) by (auto dest: set_dropWhileD)
  then have "re_sub_bracketed ((dropWhile isspace ?j @ [NEWLINE]) @ LBRACKET # m @ RBRACKET # [])
             = (dropWhile isspace ?j @ [NEWLINE]) @ re_sub_bracketed (LBRACKET # m @ RBRACKET # [])"
    by (rule re_sub_bracketed_prefix)
  moreover have "re_sub_bracketed (LBRACKET # m @ RBRACKET # []) = re_sub_bracketed []"
    using assms(1,2) by (rule re_sub_bracketed_marker)
  ultimately have "clean_transcript (Some (pre @ [x])) = dropWhile isspace ?j @ [NEWLINE]"
    using assms(4) by (simp add: clean_transcript_def)
  then show ?thesis ..
qed

section \<open>Facts about trimming and the removal of markers\<close>

















section \<open>Facts about the Writer\<close>

lemma set_join: "set (join sep xs) \<subseteq> set sep \<union> \<Union> (set ` set xs)"
  by (induction sep xs rule: join.induct) auto

lemma set_strip: "set (strip s) \<subseteq> set s"
proof
  fix c
  assume "c \<in> set (strip s)"
  then have "c \<in> set (dropWhile isspace (rev (dropWhile isspace s)))"
    by (simp add: strip_def)
  then have "c \<in> set (rev (dropWhile isspace s))" by (rule set_dropWhileD)
  then have "c \<in> set (dropWhile isspace s)" by simp
  then show "c \<in> set s" by (rule set_dropWhileD)
qed

lemma utf8_ok_clean_transcript:
  assumes "\<forall>x\<in>set t. utf8_ok (text x)"
  shows "utf8_ok (clean_transcript (Some t))"
proof (cases "t = []")
  case True
  then show ?thesis by (simp add: clean_transcript_def utf8_ok_def)
next
  case False
  let ?j = "join [NEWLINE] (map text t)"
  have "set (clean_transcript (Some t)) \<subseteq> set ?j"
    using False set_re_sub_bracketed[of "strip ?j"] set_strip[of ?j]
    by (simp add: clean_transcript_def)
  also have "\<dots> \<subseteq> {NEWLINE} \<union> \<Union> (set ` set (map text t))"
    using set_join[of "[NEWLINE]" "map text t"] by simp
  finally have "\<forall>c\<in>set (clean_transcript (Some t)). \<not> is_surrogate c"
    using assms by (auto simp: utf8_ok_def list_all_iff is_surrogate_def)
  then show ?thesis by (simp add: utf8_ok_def list_all_iff)
qed

lemma last_path_join: "b \<noteq> [] \<Longrightarrow> last (path_join a b) = last b"
  by (simp add: path_join_def)

lemma raw_path_neq_clean_path: "raw_path e v rd \<noteq> clean_path e v cd"
proof
  assume "raw_path e v rd = clean_path e v cd"
  then have "last (raw_path e v rd) = last (clean_path e v cd)" by simp
  then show False
    by (simp add: raw_path_def clean_path_def last_path_join py_def)
qed

lemma save_transcript_falsy:
  "\<not> truthy transcript \<Longrightarrow> save_transcript e v transcript rd cd w = (Inr False, w)"
  by (auto simp: truthy_def save_transcript_def split: option.splits)

lemma save_transcript_cases:
  assumes "t \<noteq> []"
  shows "save_transcript e v (Some t) rd cd w =
    (case open_error e (raw_path e v rd) of
       Some err \<Rightarrow> (Inl err, w)
     | None \<Rightarrow>
        if \<not> (\<forall>x\<in>set t. utf8_ok (text x))
        then (Inl (Exception (py ''UnicodeEncodeError'')),
              w\<lparr>files := (files w)(raw_path e v rd \<mapsto> Truncated)\<rparr>)
        else
          (case write_error e (raw_path e v rd) of
             Some err \<Rightarrow> (Inl err, w\<lparr>files := (files w)(raw_path e v rd \<mapsto> Truncated)\<rparr>)
           | None \<Rightarrow>
              (case open_error e (clean_path e v cd) of
                 Some err \<Rightarrow> (Inl err, w\<lparr>files := (files w)(raw_path e v rd \<mapsto> Json t)\<rparr>)
               | None \<Rightarrow>
                  (case write_error e (clean_path e v cd) of
                     Some err \<Rightarrow>
                       (Inl err, w\<lparr>files := (files w)(raw_path e v rd \<mapsto> Json t,
                                                        clean_path e v cd \<mapsto> Truncated)\<rparr>)
                   | None \<Rightarrow>
                       (Inr True,
                        w\<lparr>files := (files w)(raw_path e v rd \<mapsto> Json t,
                           clean_path e v cd \<mapsto> Text (clean_transcript (Some t)))\<rparr>)))))"
proof (cases "open_error e (raw_path e v rd)")
  case (Some err)
  with assms show ?thesis by (simp add: save_transcript_def write_file_def)
next
  case o1: None
  show ?thesis
  proof (cases "\<forall>x\<in>set t. utf8_ok (text x)")
    case False
    then have "\<not> encodable (Json t)" by (simp add: list_all_iff)
    with assms o1 False show ?thesis by (simp add: save_transcript_def write_file_def)
  next
    case True
    then have j: "encodable (Json t)" by (simp add: list_all_iff)
    from utf8_ok_clean_transcript[OF True]
    have c: "encodable (Text (clean_transcript (Some t)))" by simp
    show ?thesis
    proof (cases "write_error e (raw_path e v rd)")
      case (Some err)
      with assms o1 True j show ?thesis by (simp add: save_transcript_def write_file_def)
    next
      case w1: None
      show ?thesis
      proof (cases "open_error e (clean_path e v cd)")
        case (Some err)
        with assms o1 True j w1 show ?thesis by (simp add: save_transcript_def write_file_def)
      next
        case o2: None
        show ?thesis
        proof (cases "write_error e (clean_path e v cd)")
          case (Some err)
          with assms o1 True j w1 o2 c show ?thesis
            by (simp add: save_transcript_def write_file_def)
        next
          case None
          with assms o1 True j w1 o2 c show ?thesis
            by (simp add: save_transcript_def write_file_def)
        qed
      qed
    qed
  qed
qed

lemma save_transcript_written:
  assumes "t \<noteq> []"
    and "open_error e (raw_path e v rd) = None" "write_error e (raw_path e v rd) = None"
    and "open_error e (clean_path e v cd) = None" "write_error e (clean_path e v cd) = None"
    and "\<forall>x\<in>set t. utf8_ok (text x)"
  shows "save_transcript e v (Some t) rd cd w =
           (Inr True, w\<lparr>files := (files w)(raw_path e v rd \<mapsto> Json t,
                                         clean_path e v cd \<mapsto> Text (clean_transcript (Some t)))\<rparr>)"
  unfolding save_transcript_cases[OF assms(1)] using assms(2-6) by simp

lemma save_transcript_not_False:
  "t \<noteq> [] \<Longrightarrow> fst (save_transcript e v (Some t) rd cd w) \<noteq> Inr False"
  unfolding save_transcript_cases by (simp split: option.splits)

lemma save_transcript_True_only:
  assumes "t \<noteq> []" "fst (save_transcript e v (Some t) rd cd w) = Inr True"
  shows "open_error e (raw_path e v rd) = None \<and> write_error e (raw_path e v rd) = None \<and>
         open_error e (clean_path e v cd) = None \<and> write_error e (clean_path e v cd) = None \<and>
         (\<forall>x\<in>set t. utf8_ok (text x))"
  using assms(2) unfolding save_transcript_cases[OF assms(1)]
  by (simp split: option.splits if_splits)

section \<open>The artifact file name\<close>

lemma str_nat_lt_1000:
  assumes "n < 1000"
  shows "zfill 3 (str_nat n) = [ZERO + n div 100, ZERO + n div 10 mod 10, ZERO + n mod 10]"
proof -
  consider "n < 10" | "10 \<le> n" "n < 100" | "100 \<le> n"
    by linarith
  then show ?thesis
  proof cases
    case 1
    then have "str_nat n = [ZERO + n]" by (simp add: str_nat.simps)
    with 1 show ?thesis by (simp add: zfill_def numeral_3_eq_3)
  next
    case 2
    then have a: "n div 10 < 10" by simp
    from 2 have "str_nat n = str_nat (n div 10) @ [ZERO + n mod 10]"
      by (subst str_nat.simps) simp
    also from a have "str_nat (n div 10) = [ZERO + n div 10]"
      by (subst str_nat.simps) simp
    finally have "str_nat n = [ZERO + n div 10, ZERO + n mod 10]" by simp
    moreover from 2 have "n div 100 = 0" by simp
    moreover from a have "n div 10 mod 10 = n div 10" by simp
    ultimately show ?thesis by (simp add: zfill_def)
  next
    case 3
    with assms have a: "\<not> n div 10 < 10" and b: "n div 10 div 10 < 10" by simp_all
    from 3 have "str_nat n = str_nat (n div 10) @ [ZERO + n mod 10]"
      by (subst str_nat.simps) simp
    also from a have "str_nat (n div 10) = str_nat (n div 10 div 10) @ [ZERO + n div 10 mod 10]"
      by (subst str_nat.simps) simp
    also from b have "str_nat (n div 10 div 10) = [ZERO + n div 10 div 10]"
      by (subst str_nat.simps) simp
    finally have "str_nat n = [ZERO + n div 10 div 10, ZERO + n div 10 mod 10, ZERO + n mod 10]"
      by simp
    moreover have "n div 10 div 10 = n div 100" by (simp add: div_mult2_eq)
    ultimately show ?thesis by (simp add: zfill_def)
  qed
qed

lemma fmt_03d_three_digits:
  assumes "0 \<le> k" "k < 1000"
  shows "fmt_03d k = [ZERO + nat k div 100, ZERO + nat k div 10 mod 10, ZERO + nat k mod 10]"
proof -
  from assms have "nat k < 1000" by simp
  from str_nat_lt_1000[OF this] assms(1) show ?thesis by (simp add: fmt_03d_def)
qed

lemma strip_eq_strip_spaces:
  assumes "\<And>c. c \<in> set s \<Longrightarrow> isspace c \<longleftrightarrow> c = SPACE"
  shows "strip s = strip_spaces s"
proof -
  have 1: "dropWhile isspace s = dropWhile (\<lambda>c. c = SPACE) s"
    using assms by (intro dropWhile_cong) auto
  have "set (rev (dropWhile (\<lambda>c. c = SPACE) s)) \<subseteq> set s"
    by (auto dest: set_dropWhileD)
  then have 2: "dropWhile isspace (rev (dropWhile (\<lambda>c. c = SPACE) s))
                = dropWhile (\<lambda>c. c = SPACE) (rev (dropWhile (\<lambda>c. c = SPACE) s))"
    using assms by (intro dropWhile_cong) auto
  show ?thesis by (simp add: strip_def strip_spaces_def 1 2)
qed

lemma safe_title_eq_spec:
  assumes "\<forall>c\<in>set t. c \<noteq> UNDERSCORE \<and> (isspace c \<longrightarrow> c = SPACE)"
  shows "safe_title e t = spec_safe_title e t"
proof -
  let ?keep = "\<lambda>c. isalnum (unicode_alnum e) c \<or> c = UNDERSCORE \<or> isspace c \<or> c = HYPHEN"
  let ?keep' = "\<lambda>c. isalnum (unicode_alnum e) c \<or> c = SPACE \<or> c = HYPHEN"
  have sp: "isspace SPACE" by (simp add: isspace_def)
  have "filter ?keep t = filter ?keep' t"
    using assms sp by (intro filter_cong) auto
  moreover have "strip (filter ?keep' t) = strip_spaces (filter ?keep' t)"
    using assms sp by (intro strip_eq_strip_spaces) auto
  ultimately show ?thesis by (simp add: safe_title_def spec_safe_title_def)
qed

lemma safe_title_intro: "safe_title e (py ''Intro: Part 1!'') = py ''Intro_Part_1''"
  by (simp add: safe_title_def py_def isalnum_def ascii_alnum_def isspace_def strip_def
      replace_char_def)

text \<open>
  Claim C5, as the code has it. The base file name is the position formatted with
  \<^verbatim>\<open>03d\<close> (three digits for positions from 0 to 999), an underscore, the sanitised title,
  an underscore and the raw video id. The sanitised title keeps the alphanumerics, the
  underscores, the whitespace characters and the hyphens of the title and strips
  everything else, then drops the whitespace at both ends, then replaces each space by an
  underscore. For a title without underscores and without whitespace other than spaces
  this is the file name in the words of the specification, and the title
  "Intro: Part 1!" gives the component "Intro_Part_1".
\<close>

theorem base_filename_derivation:
  "base_filename e v = fmt_03d (position v) @ py ''_'' @ safe_title e (title v) @ py ''_'' @ vid v \<and>
   (0 \<le> position v \<and> position v < 1000 \<longrightarrow>
      fmt_03d (position v) =
        [ZERO + nat (position v) div 100, ZERO + nat (position v) div 10 mod 10,
         ZERO + nat (position v) mod 10]) \<and>
   safe_title e (title v) =
     replace_char SPACE UNDERSCORE
       (strip (filter (\<lambda>c. isalnum (unicode_alnum e) c \<or> c = UNDERSCORE \<or> isspace c \<or> c = HYPHEN)
                 (title v))) \<and>
   ((\<forall>c\<in>set (title v). c \<noteq> UNDERSCORE \<and> (isspace c \<longrightarrow> c = SPACE)) \<longrightarrow>
      base_filename e v = spec_base_filename e v) \<and>
   (title v = py ''Intro: Part 1!'' \<longrightarrow> safe_title e (title v) = py ''Intro_Part_1'')"
proof -
  have 1: "base_filename e v
           = fmt_03d (position v) @ py ''_'' @ safe_title e (title v) @ py ''_'' @ vid v"
    by (simp add: base_filename_def)
  have 2: "safe_title e (title v) =
     replace_char SPACE UNDERSCORE
       (strip (filter (\<lambda>c. isalnum (unicode_alnum e) c \<or> c = UNDERSCORE \<or> isspace c \<or> c = HYPHEN)
                 (title v)))"
    by (simp add: safe_title_def)
  have 3: "base_filename e v = spec_base_filename e v"
    if "\<forall>c\<in>set (title v). c \<noteq> UNDERSCORE \<and> (isspace c \<longrightarrow> c = SPACE)"
    using safe_title_eq_spec[OF that] by (simp add: base_filename_def spec_base_filename_def)
  have 4: "safe_title e (title v) = py ''Intro_Part_1''" if "title v = py ''Intro: Part 1!''"
    using that safe_title_intro by simp
  from 1 2 3 4 fmt_03d_three_digits show ?thesis by blast
qed

theorem base_filename_derivation_witness:
  "base_filename demo_env video_a = py ''001_Intro_Part_1_vidA'' \<and>
   base_filename demo_env video_a = spec_base_filename demo_env video_a"
proof -
  have p: "0 \<le> position video_a \<and> position video_a < 1000" by (simp add: video_a_def)
  have t: "title video_a = py ''Intro: Part 1!''" by (simp add: video_a_def)
  have c: "\<forall>c\<in>set (title video_a). c \<noteq> UNDERSCORE \<and> (isspace c \<longrightarrow> c = SPACE)"
    by (simp add: video_a_def py_def isspace_def)
  note d = base_filename_derivation [of demo_env video_a]
  have 1: "base_filename demo_env video_a
        = fmt_03d (position video_a) @ py ''_'' @ safe_title demo_env (title video_a) @ py ''_''
          @ vid video_a"
    using d by blast
  have 2: "fmt_03d (position video_a) =
        [ZERO + nat (position video_a) div 100, ZERO + nat (position video_a) div 10 mod 10,
         ZERO + nat (position video_a) mod 10]"
    using d p by blast
  have 3: "safe_title demo_env (title video_a) = py ''Intro_Part_1''"
    using d t by blast
  have 4: "base_filename demo_env video_a = spec_base_filename demo_env video_a"
    using d c by blast
  have "base_filename demo_env video_a = py ''001_Intro_Part_1_vidA''"
    unfolding 1 2 3 by (simp add: video_a_def py_def)
  with 4 show ?thesis by simp
qed

text \<open>
  Claim C5 as stated fails where the title has an underscore, which the pattern
  \<^verbatim>\<open>\w\<close> keeps: the title "a_b" at position 3 with id "vidC" gives "003_a_b_vidC", where
  keeping only alphanumerics, spaces and hyphens gives "003_ab_vidC".
\<close>

theorem base_filename_keeps_underscore:
  "base_filename demo_env video_c = py ''003_a_b_vidC'' \<and>
   spec_base_filename demo_env video_c = py ''003_ab_vidC'' \<and>
   base_filename demo_env video_c \<noteq> spec_base_filename demo_env video_c"
proof -
  have f: "fmt_03d 3 = py ''003''"
    using fmt_03d_three_digits[of 3] by (simp add: py_def)
  have a: "base_filename demo_env video_c = py ''003_a_b_vidC''"
    by (simp add: base_filename_def video_c_def f safe_title_def demo_env_def py_def
        isalnum_def ascii_alnum_def isspace_def strip_def replace_char_def)
  have b: "spec_base_filename demo_env video_c = py ''003_ab_vidC''"
    by (simp add: spec_base_filename_def video_c_def f spec_safe_title_def demo_env_def py_def
        isalnum_def ascii_alnum_def strip_spaces_def replace_char_def)
  have "py ''003_a_b_vidC'' \<noteq> py ''003_ab_vidC''" by (simp add: py_def)
  with a b show ?thesis by simp
qed

section \<open>The Transcript Cleaner\<close>




text \<open>
  Claim C8. The Cleaner leaves clean input alone: when the joined text of a transcript has
  no bracketed marker and neither starts nor ends with whitespace, the cleaned text is
  that joined text.
\<close>

theorem clean_transcript_idempotent_on_clean:
  "join [NEWLINE] (map text t) = s \<Longrightarrow> \<not> has_marker s \<Longrightarrow>
   s = [] \<or> (\<not> isspace (hd s) \<and> \<not> isspace (last s)) \<Longrightarrow>
   clean_transcript (Some t) = s"
proof -
  assume j: "join [NEWLINE] (map text t) = s" and m: "\<not> has_marker s"
    and o: "s = [] \<or> (\<not> isspace (hd s) \<and> \<not> isspace (last s))"
  show ?thesis
  proof (cases "t = []")
    case True
    with j show ?thesis by (simp add: clean_transcript_def)
  next
    case False
    then have "clean_transcript (Some t) = re_sub_bracketed (strip s)"
      using j by (simp add: clean_transcript_def)
    also have "\<dots> = re_sub_bracketed s" using o by (simp add: strip_id)
    also have "\<dots> = s" using m by (rule re_sub_bracketed_no_marker)
    finally show ?thesis .
  qed
qed

theorem clean_transcript_idempotent_on_clean_witness:
  "clean_transcript (Some [\<lparr>text = py ''Hello world'', start = 0, duration = 2\<rparr>,
                           \<lparr>text = py ''a [] b'', start = 2, duration = 3\<rparr>])
   = py ''Hello world'' @ [NEWLINE] @ py ''a [] b''"
proof -
  let ?t = "[\<lparr>text = py ''Hello world'', start = 0, duration = 2\<rparr>,
             \<lparr>text = py ''a [] b'', start = 2, duration = 3\<rparr>]"
  let ?s = "py ''Hello world'' @ [NEWLINE] @ py ''a [] b''"
  have 1: "join [NEWLINE] (map text ?t) = ?s" by simp
  have 2: "\<not> has_marker ?s" by (simp add: py_def)
  have 3: "?s = [] \<or> (\<not> isspace (hd ?s) \<and> \<not> isspace (last ?s))"
    by (simp add: py_def isspace_def)
  from clean_transcript_idempotent_on_clean [OF 1 2 3] show ?thesis .
qed

section \<open>The Persistence Writer\<close>

text \<open>
  Claim C1, as the code has it. For a transcript that is absent or empty the Writer
  returns false and leaves the files as they were. For a transcript that is not empty it
  never returns false: it returns true exactly when both files can be opened and written
  and no entry text has a surrogate code point, and raises otherwise. When it returns
  true, the files afterwards are the files before with exactly two entries set: the raw
  artifact, holding the transcript, at the base file name with the extension of JSON in
  the raw directory, and the clean artifact, holding the cleaned text, at the same base
  file name with the extension of text in the clean directory; the two paths differ.
\<close>

theorem save_transcript_artifacts:
  "(\<not> truthy transcript \<longrightarrow> save_transcript e v transcript rd cd w = (Inr False, w)) \<and>
   (t \<noteq> [] \<longrightarrow>
      (fst (save_transcript e v (Some t) rd cd w) = Inr True \<longleftrightarrow>
         open_error e (raw_path e v rd) = None \<and> write_error e (raw_path e v rd) = None \<and>
         open_error e (clean_path e v cd) = None \<and> write_error e (clean_path e v cd) = None \<and>
         (\<forall>x\<in>set t. utf8_ok (text x))) \<and>
      (fst (save_transcript e v (Some t) rd cd w) \<noteq> Inr True \<longrightarrow>
         (\<exists>err. fst (save_transcript e v (Some t) rd cd w) = Inl err)) \<and>
      (fst (save_transcript e v (Some t) rd cd w) = Inr True \<longrightarrow>
         snd (save_transcript e v (Some t) rd cd w) =
           w\<lparr>files := (files w)(raw_path e v rd \<mapsto> Json t,
                                 clean_path e v cd \<mapsto> Text (clean_transcript (Some t)))\<rparr>) \<and>
      raw_path e v rd = path_join rd (base_filename e v @ py ''.json'') \<and>
      clean_path e v cd = path_join cd (base_filename e v @ py ''.txt'') \<and>
      raw_path e v rd \<noteq> clean_path e v cd)"
proof -
  have 1: "save_transcript e v transcript rd cd w = (Inr False, w)" if "\<not> truthy transcript"
    using that by (rule save_transcript_falsy)
  have 2: "fst (save_transcript e v (Some t) rd cd w) = Inr True \<longleftrightarrow>
         open_error e (raw_path e v rd) = None \<and> write_error e (raw_path e v rd) = None \<and>
         open_error e (clean_path e v cd) = None \<and> write_error e (clean_path e v cd) = None \<and>
         (\<forall>x\<in>set t. utf8_ok (text x))" if ne: "t \<noteq> []"
  proof
    assume "fst (save_transcript e v (Some t) rd cd w) = Inr True"
    with ne show "open_error e (raw_path e v rd) = None \<and> write_error e (raw_path e v rd) = None \<and>
         open_error e (clean_path e v cd) = None \<and> write_error e (clean_path e v cd) = None \<and>
         (\<forall>x\<in>set t. utf8_ok (text x))"
      by (rule save_transcript_True_only)
  next
    assume "open_error e (raw_path e v rd) = None \<and> write_error e (raw_path e v rd) = None \<and>
         open_error e (clean_path e v cd) = None \<and> write_error e (clean_path e v cd) = None \<and>
         (\<forall>x\<in>set t. utf8_ok (text x))"
    then show "fst (save_transcript e v (Some t) rd cd w) = Inr True"
      using save_transcript_written[OF ne, of e v rd cd w] by simp
  qed
  have 3: "\<exists>err. fst (save_transcript e v (Some t) rd cd w) = Inl err"
    if "t \<noteq> []" "fst (save_transcript e v (Some t) rd cd w) \<noteq> Inr True"
  proof (cases "fst (save_transcript e v (Some t) rd cd w)")
    case (Inl err)
    then show ?thesis by blast
  next
    case (Inr b)
    with that(2) have "b = False" by auto
    with Inr save_transcript_not_False[OF that(1), of e v rd cd w] show ?thesis by simp
  qed
  have 4: "snd (save_transcript e v (Some t) rd cd w) =
           w\<lparr>files := (files w)(raw_path e v rd \<mapsto> Json t,
                                 clean_path e v cd \<mapsto> Text (clean_transcript (Some t)))\<rparr>"
    if ne: "t \<noteq> []" and tr: "fst (save_transcript e v (Some t) rd cd w) = Inr True"
  proof -
    from save_transcript_True_only[OF ne tr]
    have "save_transcript e v (Some t) rd cd w =
           (Inr True, w\<lparr>files := (files w)(raw_path e v rd \<mapsto> Json t,
                                         clean_path e v cd \<mapsto> Text (clean_transcript (Some t)))\<rparr>)"
      by (intro save_transcript_written[OF ne]) simp_all
    then show ?thesis by simp
  qed
  have 5: "raw_path e v rd = path_join rd (base_filename e v @ py ''.json'')"
    by (simp add: raw_path_def)
  have 6: "clean_path e v cd = path_join cd (base_filename e v @ py ''.txt'')"
    by (simp add: clean_path_def)
  have 7: "raw_path e v rd \<noteq> clean_path e v cd"
    by (rule raw_path_neq_clean_path)
  show ?thesis
  proof (intro conjI impI)
    assume "\<not> truthy transcript"
    then show "save_transcript e v transcript rd cd w = (Inr False, w)" by (rule 1)
  next
    assume "t \<noteq> []"
    then show "fst (save_transcript e v (Some t) rd cd w) = Inr True \<longleftrightarrow>
         open_error e (raw_path e v rd) = None \<and> write_error e (raw_path e v rd) = None \<and>
         open_error e (clean_path e v cd) = None \<and> write_error e (clean_path e v cd) = None \<and>
         (\<forall>x\<in>set t. utf8_ok (text x))" by (rule 2)
  next
    assume "t \<noteq> []" "fst (save_transcript e v (Some t) rd cd w) \<noteq> Inr True"
    then show "\<exists>err. fst (save_transcript e v (Some t) rd cd w) = Inl err" by (rule 3)
  next
    assume "t \<noteq> []" "fst (save_transcript e v (Some t) rd cd w) = Inr True"
    then show "snd (save_transcript e v (Some t) rd cd w) =
           w\<lparr>files := (files w)(raw_path e v rd \<mapsto> Json t,
                                 clean_path e v cd \<mapsto> Text (clean_transcript (Some t)))\<rparr>"
      by (rule 4)
  next
    show "raw_path e v rd = path_join rd (base_filename e v @ py ''.json'')" by (rule 5)
  next
    show "clean_path e v cd = path_join cd (base_filename e v @ py ''.txt'')" by (rule 6)
  next
    show "raw_path e v rd \<noteq> clean_path e v cd" by (rule 7)
  qed
qed

text \<open>The paths of the first example video, and its transcript.\<close>

lemma video_a_paths:
  "raw_path e video_a RAW_DIR = py ''backend/transcripts/raw/001_Intro_Part_1_vidA.json''"
  "clean_path e video_a CLEAN_DIR = py ''backend/transcripts/clean/001_Intro_Part_1_vidA.txt''"
proof -
  have b: "base_filename e video_a = py ''001_Intro_Part_1_vidA''"
    using fmt_03d_three_digits[of 1] safe_title_intro[of e]
    by (simp add: base_filename_def video_a_def py_def)
  show "raw_path e video_a RAW_DIR = py ''backend/transcripts/raw/001_Intro_Part_1_vidA.json''"
    by (simp add: raw_path_def b RAW_DIR_def TRANSCRIPTS_DIR_def path_join_def py_def)
  show "clean_path e video_a CLEAN_DIR = py ''backend/transcripts/clean/001_Intro_Part_1_vidA.txt''"
    by (simp add: clean_path_def b CLEAN_DIR_def TRANSCRIPTS_DIR_def path_join_def py_def)
qed

lemma video_a_paths_differ:
  "py ''backend/transcripts/raw/001_Intro_Part_1_vidA.json''
   \<noteq> py ''backend/transcripts/clean/001_Intro_Part_1_vidA.txt''"
  using raw_path_neq_clean_path[of demo_env video_a RAW_DIR CLEAN_DIR]
  unfolding video_a_paths .

lemma hello_music_world_ok:
  "hello_music_world \<noteq> []" "\<forall>x\<in>set hello_music_world. utf8_ok (text x)"
  by (simp_all add: hello_music_world_def utf8_ok_def is_surrogate_def py_def)

lemma clean_hello_music_world:
  "clean_transcript (Some hello_music_world) = py ''Hello'' @ [NEWLINE, NEWLINE] @ py ''world''"
  by (simp add: hello_music_world_def clean_transcript_def py_def strip_def isspace_def)

theorem save_transcript_artifacts_witness:
  "save_transcript demo_env video_a None RAW_DIR CLEAN_DIR world0 = (Inr False, world0) \<and>
   save_transcript demo_env video_a (Some []) RAW_DIR CLEAN_DIR world0 = (Inr False, world0) \<and>
   fst (save_transcript demo_env video_a (Some hello_music_world) RAW_DIR CLEAN_DIR world0) = Inr True \<and>
   files (snd (save_transcript demo_env video_a (Some hello_music_world) RAW_DIR CLEAN_DIR world0))
     (py ''backend/transcripts/raw/001_Intro_Part_1_vidA.json'') = Some (Json hello_music_world) \<and>
   files (snd (save_transcript demo_env video_a (Some hello_music_world) RAW_DIR CLEAN_DIR world0))
     (py ''backend/transcripts/clean/001_Intro_Part_1_vidA.txt'')
     = Some (Text (py ''Hello'' @ [NEWLINE, NEWLINE] @ py ''world''))"
proof -
  have n: "\<not> truthy (None :: transcript option)" "\<not> truthy (Some ([] :: transcript))"
    by (simp_all add: truthy_def)
  have o: "open_error demo_env (raw_path demo_env video_a RAW_DIR) = None \<and>
           write_error demo_env (raw_path demo_env video_a RAW_DIR) = None \<and>
           open_error demo_env (clean_path demo_env video_a CLEAN_DIR) = None \<and>
           write_error demo_env (clean_path demo_env video_a CLEAN_DIR) = None \<and>
           (\<forall>x\<in>set hello_music_world. utf8_ok (text x))"
    using hello_music_world_ok(2) by (simp add: demo_env_def)
  note s = save_transcript_artifacts
  have 1: "save_transcript demo_env video_a None RAW_DIR CLEAN_DIR world0 = (Inr False, world0)"
    using s [of None demo_env video_a RAW_DIR CLEAN_DIR world0] n(1) by blast
  have 2: "save_transcript demo_env video_a (Some []) RAW_DIR CLEAN_DIR world0 = (Inr False, world0)"
    using s [of "Some []" demo_env video_a RAW_DIR CLEAN_DIR world0] n(2) by blast
  note h = s [of None demo_env video_a RAW_DIR CLEAN_DIR world0 hello_music_world]
  have 3: "fst (save_transcript demo_env video_a (Some hello_music_world) RAW_DIR CLEAN_DIR world0)
           = Inr True"
    using h hello_music_world_ok(1) o by blast
  have 4: "snd (save_transcript demo_env video_a (Some hello_music_world) RAW_DIR CLEAN_DIR world0) =
         world0\<lparr>files := (files world0)(raw_path demo_env video_a RAW_DIR \<mapsto> Json hello_music_world,
            clean_path demo_env video_a CLEAN_DIR \<mapsto> Text (clean_transcript (Some hello_music_world)))\<rparr>"
    using h hello_music_world_ok(1) 3 by blast
  have 5: "files (snd (save_transcript demo_env video_a (Some hello_music_world) RAW_DIR CLEAN_DIR world0))
     (py ''backend/transcripts/raw/001_Intro_Part_1_vidA.json'') = Some (Json hello_music_world)"
    unfolding 4 video_a_paths using video_a_paths_differ by simp
  have 6: "files (snd (save_transcript demo_env video_a (Some hello_music_world) RAW_DIR CLEAN_DIR world0))
     (py ''backend/transcripts/clean/001_Intro_Part_1_vidA.txt'')
     = Some (Text (py ''Hello'' @ [NEWLINE, NEWLINE] @ py ''world''))"
    unfolding 4 video_a_paths clean_hello_music_world by simp
  from 1 2 3 5 6 show ?thesis by (intro conjI)
qed

text \<open>
  Claim C1 as stated fails where a write raises. For an entry text that is a lone
  surrogate the dump of the raw artifact raises: the Writer does not return true, the raw
  file is left cut short and there is no clean file. Where the clean file cannot be
  opened the Writer raises after the raw artifact is written, which is then the only
  artifact.
\<close>

theorem save_transcript_raises:
  "fst (save_transcript demo_env video_a (Some surrogate_only) RAW_DIR CLEAN_DIR world0)
     = Inl (Exception (py ''UnicodeEncodeError'')) \<and>
   files (snd (save_transcript demo_env video_a (Some surrogate_only) RAW_DIR CLEAN_DIR world0))
     (py ''backend/transcripts/raw/001_Intro_Part_1_vidA.json'') = Some Truncated \<and>
   files (snd (save_transcript demo_env video_a (Some surrogate_only) RAW_DIR CLEAN_DIR world0))
     (py ''backend/transcripts/clean/001_Intro_Part_1_vidA.txt'') = None \<and>
   fst (save_transcript clean_locked_env video_a (Some hello_music_world) RAW_DIR CLEAN_DIR world0)
     = Inl (Exception (py ''PermissionError'')) \<and>
   files (snd (save_transcript clean_locked_env video_a (Some hello_music_world) RAW_DIR CLEAN_DIR world0))
     (py ''backend/transcripts/raw/001_Intro_Part_1_vidA.json'') = Some (Json hello_music_world) \<and>
   files (snd (save_transcript clean_locked_env video_a (Some hello_music_world) RAW_DIR CLEAN_DIR world0))
     (py ''backend/transcripts/clean/001_Intro_Part_1_vidA.txt'') = None"
proof -
  have ne: "surrogate_only \<noteq> []" by (simp add: surrogate_only_def)
  have bad: "\<not> (\<forall>x\<in>set surrogate_only. utf8_ok (text x))"
    by (simp add: surrogate_only_def utf8_ok_def is_surrogate_def)
  have o: "open_error demo_env p = None" for p by (simp add: demo_env_def)
  have a: "save_transcript demo_env video_a (Some surrogate_only) RAW_DIR CLEAN_DIR world0
           = (Inl (Exception (py ''UnicodeEncodeError'')),
              world0\<lparr>files := (files world0)(py ''backend/transcripts/raw/001_Intro_Part_1_vidA.json''
                                               \<mapsto> Truncated)\<rparr>)"
    unfolding save_transcript_cases[OF ne] video_a_paths using bad by (simp add: o)
  have l: "open_error clean_locked_env (py ''backend/transcripts/raw/001_Intro_Part_1_vidA.json'') = None"
    "open_error clean_locked_env (py ''backend/transcripts/clean/001_Intro_Part_1_vidA.txt'')
       = Some (Exception (py ''PermissionError''))"
    "write_error clean_locked_env p = None" for p
    using video_a_paths_differ by (simp_all add: clean_locked_env_def demo_env_def)
  have b: "save_transcript clean_locked_env video_a (Some hello_music_world) RAW_DIR CLEAN_DIR world0
           = (Inl (Exception (py ''PermissionError'')),
              world0\<lparr>files := (files world0)(py ''backend/transcripts/raw/001_Intro_Part_1_vidA.json''
                                               \<mapsto> Json hello_music_world)\<rparr>)"
    unfolding save_transcript_cases[OF hello_music_world_ok(1)] video_a_paths
    using hello_music_world_ok(2) by (simp add: l)
  have f: "files world0 p = None" for p by (simp add: world0_def)
  show ?thesis
    unfolding a b using video_a_paths_differ by (simp add: f)
qed

text \<open>
  Claim C10. The Writer returns true with a clean artifact that is empty or not trimmed:
  the whitespace is trimmed before the markers are removed. With both files open to
  writing, all texts free of surrogates, and \<open>x\<close> an entry whose text is one bracketed
  marker, the transcript of \<open>x\<close> alone gives the empty clean artifact; \<open>x\<close> followed by
  entries with some character that is not whitespace gives a clean artifact that begins
  with a newline; \<open>x\<close> after entries with some character that is not whitespace and no
  opening bracket gives one that ends with a newline.
\<close>

theorem save_transcript_clean_artifact_untrimmed:
  "open_error e (raw_path e v rd) = None \<Longrightarrow> write_error e (raw_path e v rd) = None \<Longrightarrow>
   open_error e (clean_path e v cd) = None \<Longrightarrow> write_error e (clean_path e v cd) = None \<Longrightarrow>
   m \<noteq> [] \<Longrightarrow> RBRACKET \<notin> set m \<Longrightarrow> utf8_ok m \<Longrightarrow> text x = LBRACKET # m @ [RBRACKET] \<Longrightarrow>
   (fst (save_transcript e v (Some [x]) rd cd w) = Inr True \<and>
    files (snd (save_transcript e v (Some [x]) rd cd w)) (clean_path e v cd) = Some (Text [])) \<and>
   (rest \<noteq> [] \<and> (\<forall>y\<in>set rest. utf8_ok (text y)) \<and>
    (\<exists>c\<in>set (join [NEWLINE] (map text rest)). \<not> isspace c) \<longrightarrow>
      fst (save_transcript e v (Some (x # rest)) rd cd w) = Inr True \<and>
      (\<exists>s. files (snd (save_transcript e v (Some (x # rest)) rd cd w)) (clean_path e v cd)
            = Some (Text (NEWLINE # s)))) \<and>
   (pre \<noteq> [] \<and> (\<forall>y\<in>set pre. utf8_ok (text y)) \<and>
    (\<exists>c\<in>set (join [NEWLINE] (map text pre)). \<not> isspace c) \<and>
    LBRACKET \<notin> set (join [NEWLINE] (map text pre)) \<longrightarrow>
      fst (save_transcript e v (Some (pre @ [x])) rd cd w) = Inr True \<and>
      (\<exists>s. files (snd (save_transcript e v (Some (pre @ [x])) rd cd w)) (clean_path e v cd)
            = Some (Text (s @ [NEWLINE]))))"
proof -
  assume o: "open_error e (raw_path e v rd) = None" "write_error e (raw_path e v rd) = None"
    "open_error e (clean_path e v cd) = None" "write_error e (clean_path e v cd) = None"
    and m: "m \<noteq> []" "RBRACKET \<notin> set m" and u: "utf8_ok m"
    and x: "text x = LBRACKET # m @ [RBRACKET]"
  from u x have ux: "utf8_ok (text x)" by (simp add: utf8_ok_def is_surrogate_def)
  have sv: "fst (save_transcript e v (Some t) rd cd w) = Inr True \<and>
            files (snd (save_transcript e v (Some t) rd cd w)) (clean_path e v cd)
            = Some (Text (clean_transcript (Some t)))"
    if "t \<noteq> []" "\<forall>y\<in>set t. utf8_ok (text y)" for t
    using save_transcript_written[OF that(1) o that(2)] by simp
  have 1: "fst (save_transcript e v (Some [x]) rd cd w) = Inr True \<and>
    files (snd (save_transcript e v (Some [x]) rd cd w)) (clean_path e v cd) = Some (Text [])"
    using sv[of "[x]"] ux clean_marker_only[OF m x] by simp
  have 2: "fst (save_transcript e v (Some (x # rest)) rd cd w) = Inr True \<and>
      (\<exists>s. files (snd (save_transcript e v (Some (x # rest)) rd cd w)) (clean_path e v cd)
            = Some (Text (NEWLINE # s)))"
    if "rest \<noteq> []" "\<forall>y\<in>set rest. utf8_ok (text y)"
      "\<exists>c\<in>set (join [NEWLINE] (map text rest)). \<not> isspace c"
    using sv[of "x # rest"] ux that(2) clean_marker_first[OF m x that(1,3)] by auto
  have 3: "fst (save_transcript e v (Some (pre @ [x])) rd cd w) = Inr True \<and>
      (\<exists>s. files (snd (save_transcript e v (Some (pre @ [x])) rd cd w)) (clean_path e v cd)
            = Some (Text (s @ [NEWLINE])))"
    if "pre \<noteq> []" "\<forall>y\<in>set pre. utf8_ok (text y)"
      "\<exists>c\<in>set (join [NEWLINE] (map text pre)). \<not> isspace c"
      "LBRACKET \<notin> set (join [NEWLINE] (map text pre))"
    using sv[of "pre @ [x]"] ux that(2) clean_marker_last[OF m x that(1,3,4)] by auto
  from 1 2 3 show ?thesis by blast
qed

theorem save_transcript_clean_artifact_untrimmed_witness:
  "fst (save_transcript demo_env video_c (Some music_only) RAW_DIR CLEAN_DIR world0) = Inr True \<and>
   files (snd (save_transcript demo_env video_c (Some music_only) RAW_DIR CLEAN_DIR world0))
     (clean_path demo_env video_c CLEAN_DIR) = Some (Text []) \<and>
   fst (save_transcript demo_env video_c (Some (music_only @ hello_music_world))
          RAW_DIR CLEAN_DIR world0) = Inr True \<and>
   (\<exists>s. files (snd (save_transcript demo_env video_c (Some (music_only @ hello_music_world))
                      RAW_DIR CLEAN_DIR world0))
          (clean_path demo_env video_c CLEAN_DIR) = Some (Text (NEWLINE # s))) \<and>
   fst (save_transcript demo_env video_c (Some (\<lparr>text = py ''Hello'', start = 0, duration = 2\<rparr> # music_only))
          RAW_DIR CLEAN_DIR world0) = Inr True \<and>
   (\<exists>s. files (snd (save_transcript demo_env video_c
                      (Some (\<lparr>text = py ''Hello'', start = 0, duration = 2\<rparr> # music_only))
                      RAW_DIR CLEAN_DIR world0))
          (clean_path demo_env video_c CLEAN_DIR) = Some (Text (s @ [NEWLINE])))"
proof -
  let ?x = "\<lparr>text = py ''[Music]'', start = 0, duration = 4\<rparr>"
  let ?h = "\<lparr>text = py ''Hello'', start = 0, duration = 2\<rparr>"
  have o: "open_error demo_env (raw_path demo_env video_c RAW_DIR) = None"
    "write_error demo_env (raw_path demo_env video_c RAW_DIR) = None"
    "open_error demo_env (clean_path demo_env video_c CLEAN_DIR) = None"
    "write_error demo_env (clean_path demo_env video_c CLEAN_DIR) = None"
    by (simp_all add: demo_env_def)
  have m: "py ''Music'' \<noteq> []" "RBRACKET \<notin> set (py ''Music'')" "utf8_ok (py ''Music'')"
    "text ?x = LBRACKET # py ''Music'' @ [RBRACKET]"
    by (simp_all add: py_def utf8_ok_def is_surrogate_def)
  have r: "hello_music_world \<noteq> [] \<and> (\<forall>y\<in>set hello_music_world. utf8_ok (text y)) \<and>
           (\<exists>c\<in>set (join [NEWLINE] (map text hello_music_world)). \<not> isspace c)"
    using hello_music_world_ok by (simp add: hello_music_world_def py_def isspace_def)
  have p: "[?h] \<noteq> [] \<and> (\<forall>y\<in>set [?h]. utf8_ok (text y)) \<and>
           (\<exists>c\<in>set (join [NEWLINE] (map text [?h])). \<not> isspace c) \<and>
           LBRACKET \<notin> set (join [NEWLINE] (map text [?h]))"
    by (simp add: py_def isspace_def utf8_ok_def is_surrogate_def)
  note t = save_transcript_clean_artifact_untrimmed
             [OF o m, of world0 hello_music_world "[?h]"]
  from t r p show ?thesis by (simp add: music_only_def)
qed

section \<open>The Transcript Fetcher\<close>

text \<open>The Fetcher by the outcome of each of its three calls.\<close>

lemma get_transcript_cases:
  "get_transcript e v w =
     (case transcript_api e v (Some [py ''hi'']) of
        Inr t \<Rightarrow> (Inr (Some t), w\<lparr>api_calls := api_calls w @ [(v, Some [py ''hi''])]\<rparr>)
      | Inl e1 \<Rightarrow>
         (case transcript_api e v (Some [py ''hi-IN'']) of
            Inr t \<Rightarrow> (Inr (Some t),
                       w\<lparr>api_calls := api_calls w @ [(v, Some [py ''hi'']), (v, Some [py ''hi-IN''])]\<rparr>)
          | Inl e2 \<Rightarrow>
             (case transcript_api e v None of
                Inr t \<Rightarrow> (Inr (Some t),
                           w\<lparr>api_calls := api_calls w @ [(v, Some [py ''hi'']), (v, Some [py ''hi-IN'']),
                                                        (v, None)]\<rparr>)
              | Inl e3 \<Rightarrow>
                  (Inr None,
                   w\<lparr>api_calls := api_calls w @ [(v, Some [py ''hi'']), (v, Some [py ''hi-IN'']),
                                                (v, None)],
                     out := out w @ [py ''Could not get transcript for video '' @ v @ py '': ''
                                     @ str_exn e3]\<rparr>))))"
  by (simp add: get_transcript_def call_transcript_api_def print_def split: sum.splits)

text \<open>
  Claim C2. The Fetcher never raises: for every video id it returns a transcript or the
  result \<open>None\<close>. It returns \<open>None\<close> exactly when all three calls of the transcript
  service raised, and then prints one line holding the video id and the message of the
  third error; when it returns a transcript it prints nothing.
\<close>

theorem get_transcript_never_raises:
  "(\<exists>r w'. get_transcript e v w = (Inr r, w')) \<and>
   (fst (get_transcript e v w) = Inr None \<longleftrightarrow>
      (\<exists>e1 e2 e3. transcript_api e v (Some [py ''hi'']) = Inl e1 \<and>
                  transcript_api e v (Some [py ''hi-IN'']) = Inl e2 \<and>
                  transcript_api e v None = Inl e3)) \<and>
   (fst (get_transcript e v w) = Inr None \<longrightarrow>
      (\<exists>e3. transcript_api e v None = Inl e3 \<and>
            out (snd (get_transcript e v w))
            = out w @ [py ''Could not get transcript for video '' @ v @ py '': '' @ str_exn e3])) \<and>
   (fst (get_transcript e v w) \<noteq> Inr None \<longrightarrow> out (snd (get_transcript e v w)) = out w)"
  unfolding get_transcript_cases
  by (simp split: sum.splits)

theorem get_transcript_never_raises_witness:
  "fst (get_transcript demo_env (py ''vidB'') world0) = Inr None \<and>
   out (snd (get_transcript demo_env (py ''vidB'') world0))
     = [py ''Could not get transcript for video vidB: NoTranscriptFound''] \<and>
   fst (get_transcript demo_env (py ''vidA'') world0) = Inr (Some hello_music_world) \<and>
   out (snd (get_transcript demo_env (py ''vidA'') world0)) = []"
proof -
  have b: "transcript_api demo_env (py ''vidB'') (Some [py ''hi'']) = Inl (Exception (py ''NoTranscriptFound''))"
    "transcript_api demo_env (py ''vidB'') (Some [py ''hi-IN'']) = Inl (Exception (py ''NoTranscriptFound''))"
    "transcript_api demo_env (py ''vidB'') None = Inl (Exception (py ''NoTranscriptFound''))"
    by (simp_all add: demo_env_def demo_transcript_api_def py_def)
  have a: "transcript_api demo_env (py ''vidA'') (Some [py ''hi'']) = Inr hello_music_world"
    by (simp add: demo_env_def demo_transcript_api_def)
  note tb = get_transcript_never_raises [of demo_env "py ''vidB''" world0]
  note ta = get_transcript_never_raises [of demo_env "py ''vidA''" world0]
  from tb b have 1: "fst (get_transcript demo_env (py ''vidB'') world0) = Inr None" by blast
  with tb b(3) have "out (snd (get_transcript demo_env (py ''vidB'') world0))
     = out world0 @ [py ''Could not get transcript for video '' @ py ''vidB'' @ py '': ''
                     @ str_exn (Exception (py ''NoTranscriptFound''))]"
    by auto
  then have 2: "out (snd (get_transcript demo_env (py ''vidB'') world0))
     = [py ''Could not get transcript for video vidB: NoTranscriptFound'']"
    by (simp add: world0_def py_def)
  from ta a have 3: "fst (get_transcript demo_env (py ''vidA'') world0) \<noteq> Inr None" by auto
  with ta have 4: "out (snd (get_transcript demo_env (py ''vidA'') world0)) = []"
    by (simp add: world0_def)
  have 5: "fst (get_transcript demo_env (py ''vidA'') world0) = Inr (Some hello_music_world)"
    by (simp add: get_transcript_cases a)
  from 1 2 4 5 show ?thesis by simp
qed

text \<open>
  The order of the calls. The Fetcher calls the transcript service with the language list
  "hi", then with "hi-IN", then with no language list; it stops at the first call that
  succeeds and returns what that call returned, and makes a later call only when every
  earlier one raised.
\<close>

lemma get_transcript_call_order:
  "(transcript_api e v (Some [py ''hi'']) = Inr t1 \<longrightarrow>
      fst (get_transcript e v w) = Inr (Some t1) \<and>
      api_calls (snd (get_transcript e v w)) = api_calls w @ [(v, Some [py ''hi''])]) \<and>
   (transcript_api e v (Some [py ''hi'']) = Inl e1 \<and>
    transcript_api e v (Some [py ''hi-IN'']) = Inr t2 \<longrightarrow>
      fst (get_transcript e v w) = Inr (Some t2) \<and>
      api_calls (snd (get_transcript e v w))
      = api_calls w @ [(v, Some [py ''hi'']), (v, Some [py ''hi-IN''])]) \<and>
   (transcript_api e v (Some [py ''hi'']) = Inl e1 \<and>
    transcript_api e v (Some [py ''hi-IN'']) = Inl e2 \<and>
    transcript_api e v None = Inr t3 \<longrightarrow>
      fst (get_transcript e v w) = Inr (Some t3) \<and>
      api_calls (snd (get_transcript e v w))
      = api_calls w @ [(v, Some [py ''hi'']), (v, Some [py ''hi-IN'']), (v, None)]) \<and>
   (transcript_api e v (Some [py ''hi'']) = Inl e1 \<and>
    transcript_api e v (Some [py ''hi-IN'']) = Inl e2 \<and>
    transcript_api e v None = Inl e3 \<longrightarrow>
      fst (get_transcript e v w) = Inr None \<and>
      api_calls (snd (get_transcript e v w))
      = api_calls w @ [(v, Some [py ''hi'']), (v, Some [py ''hi-IN'']), (v, None)])"
  unfolding get_transcript_cases
  by simp

lemma get_transcript_call_order_demo:
  "fst (get_transcript demo_env (py ''vidA'') world0) = Inr (Some hello_music_world) \<and>
   api_calls (snd (get_transcript demo_env (py ''vidA'') world0)) = [(py ''vidA'', Some [py ''hi''])] \<and>
   fst (get_transcript demo_env (py ''vidD'') world0) = Inr (Some hello_music_world) \<and>
   api_calls (snd (get_transcript demo_env (py ''vidD'') world0))
     = [(py ''vidD'', Some [py ''hi'']), (py ''vidD'', Some [py ''hi-IN''])] \<and>
   fst (get_transcript demo_env (py ''vidC'') world0) = Inr (Some music_only) \<and>
   api_calls (snd (get_transcript demo_env (py ''vidC'') world0))
     = [(py ''vidC'', Some [py ''hi'']), (py ''vidC'', Some [py ''hi-IN'']), (py ''vidC'', None)] \<and>
   fst (get_transcript demo_env (py ''vidB'') world0) = Inr None \<and>
   api_calls (snd (get_transcript demo_env (py ''vidB'') world0))
     = [(py ''vidB'', Some [py ''hi'']), (py ''vidB'', Some [py ''hi-IN'']), (py ''vidB'', None)]"
proof -
  let ?x = "Exception (py ''NoTranscriptFound'')"
  have a: "transcript_api demo_env (py ''vidA'') (Some [py ''hi'']) = Inr hello_music_world"
    by (simp add: demo_env_def demo_transcript_api_def)
  have d: "transcript_api demo_env (py ''vidD'') (Some [py ''hi'']) = Inl ?x \<and>
    transcript_api demo_env (py ''vidD'') (Some [py ''hi-IN'']) = Inr hello_music_world"
    by (simp add: demo_env_def demo_transcript_api_def py_def)
  have c: "transcript_api demo_env (py ''vidC'') (Some [py ''hi'']) = Inl ?x \<and>
    transcript_api demo_env (py ''vidC'') (Some [py ''hi-IN'']) = Inl ?x \<and>
    transcript_api demo_env (py ''vidC'') None = Inr music_only"
    by (simp add: demo_env_def demo_transcript_api_def py_def)
  have b: "transcript_api demo_env (py ''vidB'') (Some [py ''hi'']) = Inl ?x \<and>
    transcript_api demo_env (py ''vidB'') (Some [py ''hi-IN'']) = Inl ?x \<and>
    transcript_api demo_env (py ''vidB'') None = Inl ?x"
    by (simp add: demo_env_def demo_transcript_api_def py_def)
  have z: "api_calls world0 = []" by (simp add: world0_def)
  from get_transcript_call_order [of demo_env "py ''vidA''" hello_music_world world0] a
  have 1: "fst (get_transcript demo_env (py ''vidA'') world0) = Inr (Some hello_music_world) \<and>
   api_calls (snd (get_transcript demo_env (py ''vidA'') world0)) = [(py ''vidA'', Some [py ''hi''])]"
    unfolding z by simp
  from get_transcript_call_order [of demo_env "py ''vidD''" _ world0 ?x hello_music_world] d
  have 2: "fst (get_transcript demo_env (py ''vidD'') world0) = Inr (Some hello_music_world) \<and>
   api_calls (snd (get_transcript demo_env (py ''vidD'') world0))
     = [(py ''vidD'', Some [py ''hi'']), (py ''vidD'', Some [py ''hi-IN''])]"
    unfolding z by simp
  from get_transcript_call_order [of demo_env "py ''vidC''" _ world0 ?x _ ?x music_only] c
  have 3: "fst (get_transcript demo_env (py ''vidC'') world0) = Inr (Some music_only) \<and>
   api_calls (snd (get_transcript demo_env (py ''vidC'') world0))
     = [(py ''vidC'', Some [py ''hi'']), (py ''vidC'', Some [py ''hi-IN'']), (py ''vidC'', None)]"
    unfolding z by simp
  from get_transcript_call_order [of demo_env "py ''vidB''" _ world0 ?x _ ?x _ ?x] b
  have 4: "fst (get_transcript demo_env (py ''vidB'') world0) = Inr None \<and>
   api_calls (snd (get_transcript demo_env (py ''vidB'') world0))
     = [(py ''vidB'', Some [py ''hi'']), (py ''vidB'', Some [py ''hi-IN'']), (py ''vidB'', None)]"
    unfolding z by simp
  from 1 2 3 4 show ?thesis by simp
qed

text \<open>What the Fetcher returns when the transcript service is the library.\<close>

lemma get_transcript_with_library:
  assumes "transcript_api e = library_get_transcript catalogue"
  shows "fst (get_transcript e v w)
         = Inr (first_available (catalogue v) [py ''hi'', py ''hi-IN'', py ''en''])"
  unfolding get_transcript_cases assms
  by (simp add: library_get_transcript_def split: option.splits)

text \<open>
  Claim C3 says that the third attempt asks for any available transcript, with no
  restriction on the language, and so does the comment on the call. The call leaves the
  language list out, which the library reads as English. So with the library as the
  transcript service, for a video without a transcript in "hi" or "hi-IN" the Fetcher
  makes the three calls in order and returns the English transcript if the video has one
  and the result \<open>None\<close> if not, whatever other transcripts are available: a video whose
  only transcript is Spanish gets \<open>None\<close>.
\<close>

theorem get_transcript_third_call_english:
  "transcript_api e = library_get_transcript catalogue \<Longrightarrow>
   map_of (catalogue v) (py ''hi'') = None \<Longrightarrow> map_of (catalogue v) (py ''hi-IN'') = None \<Longrightarrow>
   fst (get_transcript e v w) =
     (case map_of (catalogue v) (py ''en'') of None \<Rightarrow> Inr None | Some t \<Rightarrow> Inr (Some t)) \<and>
   api_calls (snd (get_transcript e v w))
     = api_calls w @ [(v, Some [py ''hi'']), (v, Some [py ''hi-IN'']), (v, None)]"
proof -
  assume l: "transcript_api e = library_get_transcript catalogue"
    and h: "map_of (catalogue v) (py ''hi'') = None" "map_of (catalogue v) (py ''hi-IN'') = None"
  have 1: "transcript_api e v (Some [py ''hi'']) = Inl (Exception (py ''NoTranscriptFound''))"
    "transcript_api e v (Some [py ''hi-IN'']) = Inl (Exception (py ''NoTranscriptFound''))"
    using h by (simp_all add: l library_get_transcript_def)
  have 2: "transcript_api e v None =
     (case map_of (catalogue v) (py ''en'') of
        None \<Rightarrow> Inl (Exception (py ''NoTranscriptFound'')) | Some t \<Rightarrow> Inr t)"
    by (simp add: l library_get_transcript_def split: option.splits)
  show ?thesis
    unfolding get_transcript_cases 1 2 by (simp split: option.splits)
qed

theorem get_transcript_third_call_english_witness:
  "spanish_catalogue (py ''vidS'') = [(py ''es'', hello_music_world)] \<and>
   fst (get_transcript spanish_env (py ''vidS'') world0) = Inr None \<and>
   api_calls (snd (get_transcript spanish_env (py ''vidS'') world0))
     = [(py ''vidS'', Some [py ''hi'']), (py ''vidS'', Some [py ''hi-IN'']), (py ''vidS'', None)]"
proof -
  have c: "spanish_catalogue (py ''vidS'') = [(py ''es'', hello_music_world)]"
    by (simp add: spanish_catalogue_def)
  have l: "transcript_api spanish_env = library_get_transcript spanish_catalogue"
    by (simp add: spanish_env_def)
  have h: "map_of (spanish_catalogue (py ''vidS'')) (py ''hi'') = None"
    "map_of (spanish_catalogue (py ''vidS'')) (py ''hi-IN'') = None"
    unfolding c by (simp_all add: py_def)
  have n: "map_of (spanish_catalogue (py ''vidS'')) (py ''en'') = None"
    unfolding c by (simp add: py_def)
  from get_transcript_third_call_english [OF l h, of world0]
  have "fst (get_transcript spanish_env (py ''vidS'') world0) = Inr None \<and>
        api_calls (snd (get_transcript spanish_env (py ''vidS'') world0))
        = api_calls world0 @ [(py ''vidS'', Some [py ''hi'']), (py ''vidS'', Some [py ''hi-IN'']),
                              (py ''vidS'', None)]"
    unfolding n by simp
  with c show ?thesis by (simp add: world0_def)
qed

section \<open>The Playlist Lister\<close>

lemma collect_pages_serves:
  "serves e playlist_id api_key tok ps \<Longrightarrow>
   collect_pages e playlist_id api_key tok videos
   = Some (Inr (videos @ map item_video (concat (map items ps))))"
proof (induction e playlist_id api_key tok ps arbitrary: videos rule: serves.induct)
  case (1 e playlist_id api_key tok)
  then show ?case by simp
next
  case (2 e playlist_id api_key tok p)
  then show ?case
    by (subst collect_pages.simps) simp
next
  case (3 e playlist_id api_key tok p q ps)
  from "3.prems" have a: "playlist_api e api_key playlist_id tok = Inr p"
    and b: "truthy (nextPageToken p)"
    and c: "serves e playlist_id api_key (nextPageToken p) (q # ps)"
    by simp_all
  from "3.IH"[OF c] a b show ?case
    by (subst collect_pages.simps) simp
qed

lemma get_playlist_videos_serves:
  assumes "serves e (if AMPERSAND \<in> set playlist_id
                     then takeWhile (\<lambda>c. c \<noteq> AMPERSAND) playlist_id else playlist_id)
             api_key None ps"
  shows "get_playlist_videos e playlist_id api_key w =
           Some (Inr (sort_key position (map item_video (concat (map items ps)))),
                 print (py ''Using cleaned playlist ID: ''
                        @ (if AMPERSAND \<in> set playlist_id
                           then takeWhile (\<lambda>c. c \<noteq> AMPERSAND) playlist_id else playlist_id)) w)"
  using collect_pages_serves[OF assms, of "[]"]
  by (simp add: get_playlist_videos_def Let_def)

lemma sorted_one_to_n: "sorted (map int [1..<Suc n])"
  by (induction n) (auto simp: sorted_append)

lemma positions_one_to_n:
  assumes "mset (map snippet_position its) = mset (map int [0..<length its])"
  shows "map position (sort_key position (map item_video its)) = map int [1..<Suc (length its)]"
proof -
  let ?vs = "sort_key position (map item_video its)"
  have "mset (map position ?vs) = image_mset (\<lambda>k. k + 1) (mset (map snippet_position its))"
    by (simp add: item_video_def multiset.map_comp comp_def)
  also have "\<dots> = mset (map (\<lambda>k. int k + 1) [0..<length its])"
    unfolding assms by (simp add: multiset.map_comp comp_def)
  also have "map (\<lambda>k. int k + 1) [0..<length its] = map int [1..<Suc (length its)]"
    using map_Suc_upt[of 0 "length its"] by (simp add: map_Suc_upt[symmetric] del: upt_Suc)
  finally have m: "mset (map position ?vs) = mset (map int [1..<Suc (length its)])" .
  have "sort (map int [1..<Suc (length its)]) = map position ?vs"
    using m by (intro properties_for_sort) simp_all
  moreover have "sort (map int [1..<Suc (length its)]) = map int [1..<Suc (length its)]"
    using sorted_one_to_n by (intro properties_for_sort) simp_all
  ultimately show ?thesis by simp
qed

text \<open>The example playlist, as the Lister returns it.\<close>

lemma demo_serves:
  "serves demo_env (py ''PL1'') (py ''KEY'') None
     [\<lparr>items =
               [\<lparr>resource_videoId = py ''vidA'', snippet_title = py ''Intro: Part 1!'',
                 snippet_position = 0\<rparr>,
                \<lparr>resource_videoId = py ''vidB'', snippet_title = py ''Lesson 2'',
                 snippet_position = 1\<rparr>],
             nextPageToken = Some (py ''t2'')\<rparr>,
      \<lparr>items =
               [\<lparr>resource_videoId = py ''vidC'', snippet_title = py ''a_b'',
                 snippet_position = 2\<rparr>],
             nextPageToken = None\<rparr>]"
  by (simp add: demo_env_def demo_playlist_api_def truthy_def py_def)

lemma demo_clean_id:
  "(if AMPERSAND \<in> set (PLAYLIST_ID demo_env)
    then takeWhile (\<lambda>c. c \<noteq> AMPERSAND) (PLAYLIST_ID demo_env) else PLAYLIST_ID demo_env) = py ''PL1''"
  by (simp add: demo_env_def py_def)

lemma demo_get_playlist_videos:
  "get_playlist_videos demo_env (PLAYLIST_ID demo_env) (YOUTUBE_API_KEY demo_env) w
   = Some (Inr [video_a, video_b, video_c], print (py ''Using cleaned playlist ID: PL1'') w)"
proof -
  have k: "YOUTUBE_API_KEY demo_env = py ''KEY''" by (simp add: demo_env_def)
  have "serves demo_env (if AMPERSAND \<in> set (PLAYLIST_ID demo_env)
    then takeWhile (\<lambda>c. c \<noteq> AMPERSAND) (PLAYLIST_ID demo_env) else PLAYLIST_ID demo_env)
    (YOUTUBE_API_KEY demo_env) None
     [\<lparr>items =
               [\<lparr>resource_videoId = py ''vidA'', snippet_title = py ''Intro: Part 1!'',
                 snippet_position = 0\<rparr>,
                \<lparr>resource_videoId = py ''vidB'', snippet_title = py ''Lesson 2'',
                 snippet_position = 1\<rparr>],
             nextPageToken = Some (py ''t2'')\<rparr>,
      \<lparr>items =
               [\<lparr>resource_videoId = py ''vidC'', snippet_title = py ''a_b'',
                 snippet_position = 2\<rparr>],
             nextPageToken = None\<rparr>]"
    unfolding demo_clean_id k by (rule demo_serves)
  from get_playlist_videos_serves[OF this, of w] show ?thesis
    unfolding demo_clean_id
    by (simp add: item_video_def video_a_def video_b_def video_c_def py_def)
qed

text \<open>
  Claim C7, as the code has it. Whenever the listing service serves a playlist as a
  finite sequence of pages, the Lister returns, and what it returns is sorted ascending
  by position and consists of exactly the items of all pages, each with its source
  position plus one. The positions are 1 to N for N items when the source positions of
  the items across all pages are 0 to N - 1, each once, in whatever order they arrive.
\<close>

theorem get_playlist_videos_sorted:
  "serves e (if AMPERSAND \<in> set playlist_id
             then takeWhile (\<lambda>c. c \<noteq> AMPERSAND) playlist_id else playlist_id) api_key None ps \<Longrightarrow>
   \<exists>vs w'. get_playlist_videos e playlist_id api_key w = Some (Inr vs, w') \<and>
     sorted (map position vs) \<and>
     mset vs = mset (map item_video (concat (map items ps))) \<and>
     (\<forall>v\<in>set vs. \<exists>it\<in>set (concat (map items ps)).
        vid v = resource_videoId it \<and> title v = snippet_title it \<and>
        position v = snippet_position it + 1) \<and>
     (mset (map snippet_position (concat (map items ps)))
        = mset (map int [0..<length (concat (map items ps))]) \<longrightarrow>
      map position vs = map int [1..<Suc (length (concat (map items ps)))])"
proof -
  assume s: "serves e (if AMPERSAND \<in> set playlist_id
             then takeWhile (\<lambda>c. c \<noteq> AMPERSAND) playlist_id else playlist_id) api_key None ps"
  let ?its = "concat (map items ps)"
  let ?vs = "sort_key position (map item_video ?its)"
  have 1: "sorted (map position ?vs)" by simp
  have 2: "mset ?vs = mset (map item_video ?its)" by simp
  have 3: "\<forall>v\<in>set ?vs. \<exists>it\<in>set ?its.
        vid v = resource_videoId it \<and> title v = snippet_title it \<and>
        position v = snippet_position it + 1"
    by (auto simp: item_video_def)
  have 4: "mset (map snippet_position ?its) = mset (map int [0..<length ?its]) \<longrightarrow>
      map position ?vs = map int [1..<Suc (length ?its)]"
    using positions_one_to_n[of ?its] by blast
  from get_playlist_videos_serves[OF s, of w] 1 2 3 4 show ?thesis by blast
qed

theorem get_playlist_videos_sorted_witness:
  "get_playlist_videos demo_env (py ''PL1&index=2'') (py ''KEY'') world0
     = Some (Inr [video_a, video_b, video_c], print (py ''Using cleaned playlist ID: PL1'') world0) \<and>
   map position [video_a, video_b, video_c] = [1, 2, 3]"
proof -
  let ?ps = "[\<lparr>items =
               [\<lparr>resource_videoId = py ''vidA'', snippet_title = py ''Intro: Part 1!'',
                 snippet_position = 0\<rparr>,
                \<lparr>resource_videoId = py ''vidB'', snippet_title = py ''Lesson 2'',
                 snippet_position = 1\<rparr>],
             nextPageToken = Some (py ''t2'')\<rparr>,
      \<lparr>items =
               [\<lparr>resource_videoId = py ''vidC'', snippet_title = py ''a_b'',
                 snippet_position = 2\<rparr>],
             nextPageToken = None\<rparr>]"
  have c: "(if AMPERSAND \<in> set (py ''PL1&index=2'')
    then takeWhile (\<lambda>c. c \<noteq> AMPERSAND) (py ''PL1&index=2'') else py ''PL1&index=2'') = py ''PL1''"
    by (simp add: py_def)
  have s: "serves demo_env (if AMPERSAND \<in> set (py ''PL1&index=2'')
    then takeWhile (\<lambda>c. c \<noteq> AMPERSAND) (py ''PL1&index=2'') else py ''PL1&index=2'')
    (py ''KEY'') None ?ps"
    unfolding c by (rule demo_serves)
  have h: "mset (map snippet_position (concat (map items ?ps)))
        = mset (map int [0..<length (concat (map items ?ps))])"
    by (simp add: upt_rec)
  from get_playlist_videos_sorted [OF s, of world0] h
  obtain vs w' where g: "get_playlist_videos demo_env (py ''PL1&index=2'') (py ''KEY'') world0
      = Some (Inr vs, w')"
    and p: "map position vs = map int [1..<Suc (length (concat (map items ?ps)))]"
    by blast
  have d: "get_playlist_videos demo_env (py ''PL1&index=2'') (py ''KEY'') world0
   = Some (Inr [video_a, video_b, video_c], print (py ''Using cleaned playlist ID: PL1'') world0)"
    using demo_get_playlist_videos[of world0] by (simp add: demo_env_def)
  from g d have "vs = [video_a, video_b, video_c]" by simp
  with p have "map position [video_a, video_b, video_c] = [1, 2, 3]"
    by (simp add: upt_rec)
  with d show ?thesis by simp
qed

text \<open>
  Claim C7 as stated fails for a listing whose source positions have a gap: the Lister
  copies the source position and does not renumber. A page with the items at source
  positions 0 and 2 gives the positions 1 and 3 for two videos.
\<close>

theorem get_playlist_videos_gap:
  "get_playlist_videos gap_env (py ''PL1'') (py ''KEY'') world0
     = Some (Inr [video_a, video_c], print (py ''Using cleaned playlist ID: PL1'') world0) \<and>
   map position [video_a, video_c] = [1, 3] \<and>
   map position [video_a, video_c] \<noteq> map int [1..<Suc (length [video_a, video_c])]"
proof -
  have c: "(if AMPERSAND \<in> set (py ''PL1'')
    then takeWhile (\<lambda>c. c \<noteq> AMPERSAND) (py ''PL1'') else py ''PL1'') = py ''PL1''"
    by (simp add: py_def)
  have "serves gap_env (if AMPERSAND \<in> set (py ''PL1'')
    then takeWhile (\<lambda>c. c \<noteq> AMPERSAND) (py ''PL1'') else py ''PL1'') (py ''KEY'') None
    [\<lparr>items =
            [\<lparr>resource_videoId = py ''vidA'', snippet_title = py ''Intro: Part 1!'',
              snippet_position = 0\<rparr>,
             \<lparr>resource_videoId = py ''vidC'', snippet_title = py ''a_b'',
              snippet_position = 2\<rparr>],
          nextPageToken = None\<rparr>]"
    unfolding c by (simp add: gap_env_def gap_playlist_api_def truthy_def)
  from get_playlist_videos_serves[OF this, of world0]
  have 1: "get_playlist_videos gap_env (py ''PL1'') (py ''KEY'') world0
     = Some (Inr [video_a, video_c], print (py ''Using cleaned playlist ID: PL1'') world0)"
    unfolding c by (simp add: item_video_def video_a_def video_c_def py_def)
  have 2: "map position [video_a, video_c] = [1, 3]"
    by (simp add: video_a_def video_c_def)
  have 3: "map position [video_a, video_c] \<noteq> map int [1..<Suc (length [video_a, video_c])]"
    by (simp add: video_a_def video_c_def upt_rec)
  from 1 2 3 show ?thesis by simp
qed

section \<open>The Run Orchestrator\<close>

lemma fst_get_transcript_world:
  "fst (get_transcript e v w) = fst (get_transcript e v w')"
  by (simp add: get_transcript_cases split: sum.splits)

lemma get_transcript_Inr: "\<exists>r. fst (get_transcript e v w) = Inr r"
  by (simp add: get_transcript_cases split: sum.splits)

lemma get_transcript_keeps:
  "slept (snd (get_transcript e v w)) = slept w"
  by (simp add: get_transcript_cases split: sum.splits)

lemma get_transcript_calls:
  "\<exists>cs. api_calls (snd (get_transcript e v w)) = api_calls w @ (v, Some [py ''hi'']) # cs \<and>
        (\<forall>c\<in>set cs. snd c \<noteq> Some [py ''hi''])"
  by (simp add: get_transcript_cases py_def split: sum.splits)

lemma fst_save_transcript_world:
  "fst (save_transcript e v tr rd cd w) = fst (save_transcript e v tr rd cd w')"
proof (cases "truthy tr")
  case False
  then show ?thesis by (simp add: save_transcript_falsy)
next
  case True
  then obtain t where "tr = Some t" "t \<noteq> []"
    by (auto simp: truthy_def split: option.splits)
  then show ?thesis by (auto simp: save_transcript_cases split: option.splits)
qed

lemma save_transcript_keeps:
  "api_calls (snd (save_transcript e v tr rd cd w)) = api_calls w \<and>
   slept (snd (save_transcript e v tr rd cd w)) = slept w"
proof (cases "truthy tr")
  case False
  then show ?thesis by (simp add: save_transcript_falsy)
next
  case True
  then obtain t where "tr = Some t" "t \<noteq> []"
    by (auto simp: truthy_def split: option.splits)
  then show ?thesis by (auto simp: save_transcript_cases split: option.splits)
qed

lemma try_video_keeps:
  "api_calls (snd (try_video e v t w)) = api_calls (snd (get_transcript e (vid v) w)) \<and>
   slept (snd (try_video e v t w)) = slept w"
proof -
  obtain r w1 where g: "get_transcript e (vid v) w = (r, w1)" by (cases "get_transcript e (vid v) w")
  from get_transcript_keeps[of e "vid v" w] g have s: "slept w1 = slept w" by simp
  show ?thesis
  proof (cases r)
    case (Inl err)
    with g s show ?thesis by (simp add: try_video_def)
  next
    case (Inr tr)
    obtain x w2 where sv: "save_transcript e v tr RAW_DIR CLEAN_DIR w1 = (x, w2)"
      by (cases "save_transcript e v tr RAW_DIR CLEAN_DIR w1")
    from save_transcript_keeps[of e v tr RAW_DIR CLEAN_DIR w1] sv
    have k: "api_calls w2 = api_calls w1" "slept w2 = slept w1" by simp_all
    from g Inr sv k s show ?thesis
      by (cases x) (simp_all add: try_video_def print_def)
  qed
qed

lemma loop_body_keeps:
  "(\<exists>cs. api_calls (snd (loop_body e n i v t w)) = api_calls w @ (vid v, Some [py ''hi'']) # cs \<and>
         (\<forall>c\<in>set cs. snd c \<noteq> Some [py ''hi''])) \<and>
   slept (snd (loop_body e n i v t w)) = slept w + 1"
proof -
  let ?w0 = "print (py ''Processing '' @ str_nat (i + 1) @ py ''/'' @ str_nat n @ py '': ''
                      @ title v @ py '' (ID: '' @ vid v @ py '')'') w"
  obtain x w1 where tv: "try_video e v t ?w0 = (x, w1)" by (cases "try_video e v t ?w0")
  from try_video_keeps[of e v t ?w0] tv
  have a: "api_calls w1 = api_calls (snd (get_transcript e (vid v) ?w0))"
    and s: "slept w1 = slept w" by (simp_all add: print_def)
  from tv have "api_calls (snd (loop_body e n i v t w)) = api_calls w1 \<and>
                slept (snd (loop_body e n i v t w)) = slept w1 + 1"
    by (cases x) (simp_all add: loop_body_def Let_def print_def sleep_def)
  with a s get_transcript_calls[of e "vid v" ?w0] show ?thesis
    by (simp add: print_def)
qed

lemma for_videos_keeps:
  "(\<exists>cs. api_calls (snd (for_videos e n i vs t w)) = api_calls w @ cs \<and>
         map fst (filter (\<lambda>c. snd c = Some [py ''hi'']) cs) = map vid vs) \<and>
   slept (snd (for_videos e n i vs t w)) = slept w + length vs"
proof (induction vs arbitrary: i t w)
  case Nil
  show ?case by simp
next
  case (Cons v vs)
  obtain t' w' where lb: "loop_body e n i v t w = (t', w')" by (cases "loop_body e n i v t w")
  from loop_body_keeps[of e n i v t w] lb obtain cs where
    c: "api_calls w' = api_calls w @ (vid v, Some [py ''hi'']) # cs"
    and n: "\<forall>c\<in>set cs. snd c \<noteq> Some [py ''hi'']" and s: "slept w' = slept w + 1"
    by auto
  from Cons.IH[of "Suc i" t' w'] obtain ds where
    d: "api_calls (snd (for_videos e n (Suc i) vs t' w')) = api_calls w' @ ds"
    and m: "map fst (filter (\<lambda>c. snd c = Some [py ''hi'']) ds) = map vid vs"
    and s': "slept (snd (for_videos e n (Suc i) vs t' w')) = slept w' + length vs"
    by auto
  from n have f: "filter (\<lambda>c. snd c = Some [py ''hi'']) cs = []"
    by (auto simp: filter_empty_conv)
  have "api_calls (snd (for_videos e n i (v # vs) t w))
        = api_calls w @ ((vid v, Some [py ''hi'']) # cs @ ds)"
    using lb c d by simp
  moreover have "map fst (filter (\<lambda>c. snd c = Some [py ''hi''])
                   ((vid v, Some [py ''hi'']) # cs @ ds)) = map vid (v # vs)"
    using f m by simp
  moreover have "slept (snd (for_videos e n i (v # vs) t w)) = slept w + length (v # vs)"
    using lb s s' by simp
  ultimately show ?case by blast
qed

lemma for_videos_append:
  "for_videos e n i (xs @ ys) t w =
     (case for_videos e n i xs t w of (t', w') \<Rightarrow> for_videos e n (i + length xs) ys t' w')"
  by (induction xs arbitrary: i t w) (simp_all split: prod.splits)

lemma loop_body_tally:
  "fst (loop_body e n i v t w) =
     (if (\<exists>tr. fetched e v w = Inr (Some tr)) \<and> written e v w = Inr True
      then t\<lparr>successful := successful t + 1\<rparr> else t\<lparr>failed := failed t + 1\<rparr>)"
proof -
  let ?w0 = "print (py ''Processing '' @ str_nat (i + 1) @ py ''/'' @ str_nat n @ py '': ''
                      @ title v @ py '' (ID: '' @ vid v @ py '')'') w"
  obtain r where r: "fst (get_transcript e (vid v) ?w0) = Inr r"
    using get_transcript_Inr by blast
  then obtain w1 where g: "get_transcript e (vid v) ?w0 = (Inr r, w1)"
    by (cases "get_transcript e (vid v) ?w0") simp
  have f: "fetched e v w = Inr r"
    using fst_get_transcript_world[of e "vid v" w ?w0] r by (simp add: fetched_def)
  obtain x w2 where sv: "save_transcript e v r RAW_DIR CLEAN_DIR w1 = (x, w2)"
    by (cases "save_transcript e v r RAW_DIR CLEAN_DIR w1")
  have wr: "written e v w = x"
    using f fst_save_transcript_world[of e v r RAW_DIR CLEAN_DIR w w1] sv
    by (simp add: written_def)
  show ?thesis
  proof (cases "truthy r")
    case False
    then have "x = Inr False"
      using save_transcript_falsy[of r e v RAW_DIR CLEAN_DIR w1] sv by simp
    with False g f wr show ?thesis
      by (simp add: loop_body_def try_video_def Let_def)
  next
    case True
    then obtain tr where "r = Some tr" by (auto simp: truthy_def split: option.splits)
    with True g f wr sv show ?thesis
      by (cases x) (auto simp: loop_body_def try_video_def Let_def)
  qed
qed

lemma written_cases:
  "(\<exists>tr. fetched e v w = Inr (Some tr)) \<and> written e v w = Inr True \<longleftrightarrow>
   \<not> (fetched e v w = Inr None \<or> written e v w = Inr False \<or> (\<exists>x. written e v w = Inl x))"
proof -
  obtain r where r: "fetched e v w = Inr r"
    using get_transcript_Inr[of e "vid v" w] unfolding fetched_def by blast
  show ?thesis
  proof (cases r)
    case None
    with r have "written e v w = Inr False"
      by (simp add: written_def save_transcript_def)
    with r None show ?thesis by simp
  next
    case (Some tr)
    with r show ?thesis by (cases "written e v w") auto
  qed
qed

lemma for_videos_total:
  "successful (fst (for_videos e n i vs t w)) + failed (fst (for_videos e n i vs t w))
   = successful t + failed t + length vs"
proof (induction vs arbitrary: i t w)
  case Nil
  show ?case by simp
next
  case (Cons v vs)
  obtain t' w' where lb: "loop_body e n i v t w = (t', w')" by (cases "loop_body e n i v t w")
  with loop_body_tally[of e n i v t w]
  have "successful t' + failed t' = successful t + failed t + 1"
    by (auto split: if_splits)
  with Cons.IH[of "Suc i" t' w'] lb show ?case by simp
qed

text \<open>The example run: what is fetched and written for each video, and the counters.\<close>

lemma demo_fetched:
  "fetched demo_env video_a w = Inr (Some hello_music_world)"
  "fetched demo_env video_b w = Inr None"
  "fetched demo_env video_c w = Inr (Some music_only)"
  "fetched demo_env video_e w = Inr (Some [])"
  "fetched readonly_env video_a w = Inr (Some hello_music_world)"
  by (simp_all add: fetched_def get_transcript_cases demo_env_def readonly_env_def
      demo_transcript_api_def video_a_def video_b_def video_c_def video_e_def py_def)

lemma demo_written:
  "written demo_env video_a w = Inr True"
  "written demo_env video_b w = Inr False"
  "written demo_env video_c w = Inr True"
  "written demo_env video_e w = Inr False"
  "written readonly_env video_a w = Inl (Exception (py ''PermissionError''))"
proof -
  have o: "open_error demo_env p = None" "write_error demo_env p = None" for p
    by (simp_all add: demo_env_def)
  have mo: "music_only \<noteq> []" "\<forall>x\<in>set music_only. utf8_ok (text x)"
    by (simp_all add: music_only_def utf8_ok_def is_surrogate_def py_def)
  show "written demo_env video_a w = Inr True"
    unfolding written_def demo_fetched
    by (simp add: save_transcript_written[OF hello_music_world_ok(1) o o hello_music_world_ok(2)])
  show "written demo_env video_b w = Inr False"
    unfolding written_def demo_fetched by (simp add: save_transcript_def)
  show "written demo_env video_c w = Inr True"
    unfolding written_def demo_fetched
    by (simp add: save_transcript_written[OF mo(1) o o mo(2)])
  show "written demo_env video_e w = Inr False"
    unfolding written_def demo_fetched by (simp add: save_transcript_def)
  show "written readonly_env video_a w = Inl (Exception (py ''PermissionError''))"
    unfolding written_def demo_fetched
    by (simp add: save_transcript_cases[OF hello_music_world_ok(1)] readonly_env_def)
qed

lemma fst_for_videos_Cons:
  "fst (for_videos e n i (v # vs) t w)
   = fst (for_videos e n (Suc i) vs (fst (loop_body e n i v t w)) (snd (loop_body e n i v t w)))"
  by (simp split: prod.splits)

lemma main_tally:
  assumes "get_playlist_videos e (PLAYLIST_ID e) (YOUTUBE_API_KEY e)
             (print (py ''Fetching videos from playlist: '' @ PLAYLIST_ID e) w) = Some (Inr videos, w1)"
  shows "map_option fst (main e w) =
           Some (Inr (fst (for_videos e (length videos) 0 videos \<lparr>successful = 0, failed = 0\<rparr>
                        (print (py ''Found '' @ str_nat (length videos)
                                @ py '' videos in the playlist'') w1))))"
proof -
  let ?w2 = "print (py ''Found '' @ str_nat (length videos) @ py '' videos in the playlist'') w1"
  obtain tl w3 where f: "for_videos e (length videos) 0 videos \<lparr>successful = 0, failed = 0\<rparr> ?w2
                         = (tl, w3)"
    by (cases "for_videos e (length videos) 0 videos \<lparr>successful = 0, failed = 0\<rparr> ?w2")
  from assms f show ?thesis by (simp add: main_def Let_def)
qed

lemma demo_run_tally:
  "fst (for_videos demo_env n i [video_a, video_b, video_c] \<lparr>successful = 0, failed = 0\<rparr> w)
   = \<lparr>successful = 2, failed = 1\<rparr>"
  by (simp only: fst_for_videos_Cons loop_body_tally demo_fetched demo_written)
     simp

text \<open>
  Claim C6. In one iteration of the loop of \<open>main\<close>, \<open>successful\<close> goes up by one
  exactly when the fetch returned a transcript and the write returned true, and stays as
  it is otherwise; \<open>failed\<close> goes up by one exactly when the fetch returned the result
  \<open>None\<close>, or the write returned false, or an exception was raised, and stays as it is
  otherwise. An exception is caught inside the iteration: the loop over a list of videos
  runs the iteration of each video and goes on with the videos after it, so that every
  video of the list has its first call of the transcript service made, in order, and its
  pause of one second, whatever happened to the videos before it.
\<close>

theorem loop_body_counts:
  "successful (fst (loop_body e n i v t w)) =
     successful t + (if (\<exists>tr. fetched e v w = Inr (Some tr)) \<and> written e v w = Inr True
                     then 1 else 0) \<and>
   failed (fst (loop_body e n i v t w)) =
     failed t + (if fetched e v w = Inr None \<or> written e v w = Inr False \<or>
                    (\<exists>x. written e v w = Inl x) then 1 else 0) \<and>
   for_videos e n i (xs @ v # ys) t w =
     (case for_videos e n i xs t w of
        (t', w') \<Rightarrow>
          (case loop_body e n (i + length xs) v t' w' of
             (t'', w'') \<Rightarrow> for_videos e n (Suc (i + length xs)) ys t'' w'')) \<and>
   map fst (filter (\<lambda>c. snd c = Some [py ''hi''])
              (drop (length (api_calls w)) (api_calls (snd (for_videos e n i vs t w)))))
     = map vid vs \<and>
   slept (snd (for_videos e n i vs t w)) = slept w + length vs"
proof -
  have 1: "successful (fst (loop_body e n i v t w)) =
     successful t + (if (\<exists>tr. fetched e v w = Inr (Some tr)) \<and> written e v w = Inr True
                     then 1 else 0)"
    by (simp add: loop_body_tally)
  have 2: "failed (fst (loop_body e n i v t w)) =
     failed t + (if fetched e v w = Inr None \<or> written e v w = Inr False \<or>
                    (\<exists>x. written e v w = Inl x) then 1 else 0)"
    using written_cases[of e v w] by (simp add: loop_body_tally)
  have 3: "for_videos e n i (xs @ v # ys) t w =
     (case for_videos e n i xs t w of
        (t', w') \<Rightarrow>
          (case loop_body e n (i + length xs) v t' w' of
             (t'', w'') \<Rightarrow> for_videos e n (Suc (i + length xs)) ys t'' w''))"
    by (simp add: for_videos_append split: prod.splits)
  from for_videos_keeps[of e n i vs t w]
  have 4: "map fst (filter (\<lambda>c. snd c = Some [py ''hi''])
              (drop (length (api_calls w)) (api_calls (snd (for_videos e n i vs t w)))))
     = map vid vs" and 5: "slept (snd (for_videos e n i vs t w)) = slept w + length vs"
    by auto
  from 1 2 3 4 5 show ?thesis by blast
qed

theorem loop_body_counts_witness:
  "successful (fst (loop_body demo_env 3 0 video_a \<lparr>successful = 0, failed = 0\<rparr> world0)) = 1 \<and>
   failed (fst (loop_body demo_env 3 0 video_a \<lparr>successful = 0, failed = 0\<rparr> world0)) = 0 \<and>
   successful (fst (loop_body demo_env 3 1 video_b \<lparr>successful = 1, failed = 0\<rparr> world0)) = 1 \<and>
   failed (fst (loop_body demo_env 3 1 video_b \<lparr>successful = 1, failed = 0\<rparr> world0)) = 1 \<and>
   successful (fst (loop_body demo_env 3 0 video_e \<lparr>successful = 0, failed = 0\<rparr> world0)) = 0 \<and>
   failed (fst (loop_body demo_env 3 0 video_e \<lparr>successful = 0, failed = 0\<rparr> world0)) = 1 \<and>
   successful (fst (loop_body readonly_env 3 0 video_a \<lparr>successful = 0, failed = 0\<rparr> world0)) = 0 \<and>
   failed (fst (loop_body readonly_env 3 0 video_a \<lparr>successful = 0, failed = 0\<rparr> world0)) = 1 \<and>
   map fst (filter (\<lambda>c. snd c = Some [py ''hi''])
      (api_calls (snd (for_videos readonly_env 3 0 [video_a, video_b, video_c]
                         \<lparr>successful = 0, failed = 0\<rparr> world0))))
     = [py ''vidA'', py ''vidB'', py ''vidC''] \<and>
   slept (snd (for_videos readonly_env 3 0 [video_a, video_b, video_c]
                 \<lparr>successful = 0, failed = 0\<rparr> world0)) = 3"
proof -
  let ?t0 = "\<lparr>successful = 0, failed = 0\<rparr>"
  note a = loop_body_counts [of demo_env 3 0 video_a ?t0 world0]
  note b = loop_body_counts [of demo_env 3 1 video_b "\<lparr>successful = 1, failed = 0\<rparr>" world0]
  note c = loop_body_counts [of demo_env 3 0 video_e ?t0 world0]
  note d = loop_body_counts [of readonly_env 3 0 video_a ?t0 world0 _ _ "[video_a, video_b, video_c]"]
  have 1: "successful (fst (loop_body demo_env 3 0 video_a ?t0 world0)) = 1 \<and>
           failed (fst (loop_body demo_env 3 0 video_a ?t0 world0)) = 0"
    using a by (simp add: demo_fetched demo_written)
  have 2: "successful (fst (loop_body demo_env 3 1 video_b \<lparr>successful = 1, failed = 0\<rparr> world0)) = 1 \<and>
           failed (fst (loop_body demo_env 3 1 video_b \<lparr>successful = 1, failed = 0\<rparr> world0)) = 1"
    using b by (simp add: demo_fetched demo_written)
  have 3: "successful (fst (loop_body demo_env 3 0 video_e ?t0 world0)) = 0 \<and>
           failed (fst (loop_body demo_env 3 0 video_e ?t0 world0)) = 1"
    using c by (simp add: demo_fetched demo_written)
  have 4: "successful (fst (loop_body readonly_env 3 0 video_a ?t0 world0)) = 0 \<and>
           failed (fst (loop_body readonly_env 3 0 video_a ?t0 world0)) = 1"
    using d by (simp add: demo_fetched demo_written)
  have 5: "map fst (filter (\<lambda>c. snd c = Some [py ''hi''])
      (api_calls (snd (for_videos readonly_env 3 0 [video_a, video_b, video_c] ?t0 world0))))
     = [py ''vidA'', py ''vidB'', py ''vidC''] \<and>
     slept (snd (for_videos readonly_env 3 0 [video_a, video_b, video_c] ?t0 world0)) = 3"
    using d by (simp add: world0_def video_a_def video_b_def video_c_def)
  from 1 2 3 4 5 show ?thesis by blast
qed

text \<open>
  Claim C9. Every iteration adds one to exactly one of the two counters and leaves the
  other as it is, so the loop over a list of videos adds the length of the list to their
  sum; when the Lister returns a list of videos, \<open>main\<close> ends with counters whose sum is
  the number of videos.
\<close>

theorem counters_sum_to_videos:
  "((successful (fst (loop_body e n i v t w)) = successful t + 1 \<and>
     failed (fst (loop_body e n i v t w)) = failed t) \<or>
    (successful (fst (loop_body e n i v t w)) = successful t \<and>
     failed (fst (loop_body e n i v t w)) = failed t + 1)) \<and>
   successful (fst (for_videos e n i vs t w)) + failed (fst (for_videos e n i vs t w))
     = successful t + failed t + length vs \<and>
   (get_playlist_videos e (PLAYLIST_ID e) (YOUTUBE_API_KEY e)
      (print (py ''Fetching videos from playlist: '' @ PLAYLIST_ID e) w) = Some (Inr videos, w1) \<longrightarrow>
    (\<exists>tl w'. main e w = Some (Inr tl, w') \<and> successful tl + failed tl = length videos))"
proof -
  have 1: "(successful (fst (loop_body e n i v t w)) = successful t + 1 \<and>
     failed (fst (loop_body e n i v t w)) = failed t) \<or>
    (successful (fst (loop_body e n i v t w)) = successful t \<and>
     failed (fst (loop_body e n i v t w)) = failed t + 1)"
    by (simp add: loop_body_tally)
  have 3: "\<exists>tl w'. main e w = Some (Inr tl, w') \<and> successful tl + failed tl = length videos"
    if g: "get_playlist_videos e (PLAYLIST_ID e) (YOUTUBE_API_KEY e)
      (print (py ''Fetching videos from playlist: '' @ PLAYLIST_ID e) w) = Some (Inr videos, w1)"
  proof -
    let ?w2 = "print (py ''Found '' @ str_nat (length videos) @ py '' videos in the playlist'') w1"
    obtain tl w3 where f: "for_videos e (length videos) 0 videos \<lparr>successful = 0, failed = 0\<rparr> ?w2
                           = (tl, w3)"
      by (cases "for_videos e (length videos) 0 videos \<lparr>successful = 0, failed = 0\<rparr> ?w2")
    from for_videos_total[of e "length videos" 0 videos "\<lparr>successful = 0, failed = 0\<rparr>" ?w2] f
    have "successful tl + failed tl = length videos" by simp
    moreover from g f have "\<exists>w'. main e w = Some (Inr tl, w')"
      by (simp add: main_def Let_def)
    ultimately show ?thesis by blast
  qed
  from 1 for_videos_total 3 show ?thesis by blast
qed

theorem counters_sum_to_videos_witness:
  "map_option fst (main demo_env world0) = Some (Inr \<lparr>successful = 2, failed = 1\<rparr>) \<and>
   successful \<lparr>successful = 2, failed = 1\<rparr> + failed \<lparr>successful = 2, failed = 1\<rparr>
     = length [video_a, video_b, video_c]"
proof -
  let ?w0 = "print (py ''Fetching videos from playlist: '' @ PLAYLIST_ID demo_env) world0"
  let ?w1 = "print (py ''Using cleaned playlist ID: PL1'') ?w0"
  have g: "get_playlist_videos demo_env (PLAYLIST_ID demo_env) (YOUTUBE_API_KEY demo_env) ?w0
           = Some (Inr [video_a, video_b, video_c], ?w1)"
    by (rule demo_get_playlist_videos)
  from counters_sum_to_videos [of demo_env _ _ _ _ world0 _ "[video_a, video_b, video_c]" ?w1] g
  obtain tl w' where m: "main demo_env world0 = Some (Inr tl, w')"
    and s: "successful tl + failed tl = length [video_a, video_b, video_c]"
    by blast
  have "map_option fst (main demo_env world0) = Some (Inr \<lparr>successful = 2, failed = 1\<rparr>)"
    unfolding main_tally[OF g] demo_run_tally ..
  with m s show ?thesis by simp
qed

end
